theory Spec2Isabelle
  imports Complex_Main
begin

section \<open>Numbers, vectors and matrices\<close>

text \<open>
  The controller of \<^verbatim>\<open>controller.c\<close> computes with C \<^verbatim>\<open>double\<close> values held in
  GSL vectors and matrices. Here a \<^verbatim>\<open>double\<close> is a real number and every arithmetic
  operation is exact: rounding, overflow, infinities and NaN are outside the model. A
  decimal literal of the source is the rational number it denotes. The one place where
  the source divides by a number that can be zero, in \<^verbatim>\<open>computeBMatrices\<close>, is embedded a
  second time over values that include the infinities and NaN.

  A \<^verbatim>\<open>gsl_vector\<close> is the list of its entries; a \<^verbatim>\<open>gsl_matrix\<close> is the list of its
  rows (\<^verbatim>\<open>size1\<close> rows of \<^verbatim>\<open>size2\<close> entries, row-major as in the \<^verbatim>\<open>data\<close> block).
\<close>

type_synonym gsl_vector = "real list"
type_synonym gsl_matrix = "real list list"

definition size1 :: "'a list list \<Rightarrow> nat" where
  "size1 m = length m"

definition size2 :: "'a list list \<Rightarrow> nat" where
  "size2 m = (case m of [] \<Rightarrow> 0 | r # _ \<Rightarrow> length r)"

text \<open>The matrix with \<open>n\<close> rows and \<open>m\<close> columns whose entry \<open>(i, j)\<close> is \<open>f i j\<close>.\<close>

definition mat :: "nat \<Rightarrow> nat \<Rightarrow> (nat \<Rightarrow> nat \<Rightarrow> 'a) \<Rightarrow> 'a list list" where
  "mat n m f = map (\<lambda>i. map (\<lambda>j. f i j) [0..<m]) [0..<n]"

definition is_mat :: "nat \<Rightarrow> nat \<Rightarrow> 'a list list \<Rightarrow> bool" where
  "is_mat n m a = (length a = n \<and> list_all (\<lambda>r. length r = m) a)"

definition gsl_vector_get :: "gsl_vector \<Rightarrow> nat \<Rightarrow> real" where
  "gsl_vector_get v i = v ! i"

definition gsl_matrix_get :: "gsl_matrix \<Rightarrow> nat \<Rightarrow> nat \<Rightarrow> real" where
  "gsl_matrix_get m i j = m ! i ! j"

subsection \<open>The operations of the linear-algebra library\<close>

text \<open>
  Modelled from the spec: the GSL primitives are not part of the repository; section 6 of
  the specification lists them (identity and zero initialisation, copy, scale, add,
  subtract, transpose, general matrix-matrix and matrix-vector multiply with transpose
  flags and scalar coefficients, dot product). Each in-place primitive returns the new
  content of the object it writes. The status codes the primitives return are dropped
  by every call in the source and are not modelled for these operations.
\<close>

definition gsl_matrix_set_identity :: "gsl_matrix \<Rightarrow> gsl_matrix" where
  "gsl_matrix_set_identity m = mat (size1 m) (size2 m) (\<lambda>i j. if i = j then 1 else 0)"

definition gsl_matrix_set_zero :: "gsl_matrix \<Rightarrow> gsl_matrix" where
  "gsl_matrix_set_zero m = mat (size1 m) (size2 m) (\<lambda>i j. 0)"

definition gsl_matrix_memcpy :: "gsl_matrix \<Rightarrow> gsl_matrix \<Rightarrow> gsl_matrix" where
  "gsl_matrix_memcpy dest src = src"

definition gsl_matrix_scale :: "gsl_matrix \<Rightarrow> real \<Rightarrow> gsl_matrix" where
  "gsl_matrix_scale a c = mat (size1 a) (size2 a) (\<lambda>i j. a ! i ! j * c)"

definition gsl_matrix_add :: "gsl_matrix \<Rightarrow> gsl_matrix \<Rightarrow> gsl_matrix" where
  "gsl_matrix_add a b = mat (size1 a) (size2 a) (\<lambda>i j. a ! i ! j + b ! i ! j)"

definition gsl_matrix_sub :: "gsl_matrix \<Rightarrow> gsl_matrix \<Rightarrow> gsl_matrix" where
  "gsl_matrix_sub a b = mat (size1 a) (size2 a) (\<lambda>i j. a ! i ! j - b ! i ! j)"

definition transpose_m :: "'a list list \<Rightarrow> 'a list list" where
  "transpose_m a = mat (size2 a) (size1 a) (\<lambda>i j. a ! j ! i)"

definition gsl_matrix_transpose_memcpy :: "gsl_matrix \<Rightarrow> gsl_matrix \<Rightarrow> gsl_matrix" where
  "gsl_matrix_transpose_memcpy dest src = transpose_m src"

text \<open>The read of a view: the \<open>n1 \<times> n2\<close> block of \<open>m\<close> whose top-left entry is \<open>(k1, k2)\<close>.\<close>

definition gsl_matrix_submatrix :: "gsl_matrix \<Rightarrow> nat \<Rightarrow> nat \<Rightarrow> nat \<Rightarrow> nat \<Rightarrow> gsl_matrix" where
  "gsl_matrix_submatrix m k1 k2 n1 n2 = mat n1 n2 (\<lambda>i j. m ! (k1 + i) ! (k2 + j))"

text \<open>
  The write through a view: \<^verbatim>\<open>gsl_matrix_memcpy(&v.matrix, a)\<close> for the view
  \<^verbatim>\<open>v = gsl_matrix_submatrix(result, k1, k2, a->size1, a->size2)\<close> overwrites that block
  of \<open>result\<close> and leaves its other entries.
\<close>

definition memcpy_submatrix ::
  "'a list list \<Rightarrow> nat \<Rightarrow> nat \<Rightarrow> 'a list list \<Rightarrow> 'a list list" where
  "memcpy_submatrix result k1 k2 a =
     mat (size1 result) (size2 result)
       (\<lambda>i j. if k1 \<le> i \<and> i < k1 + size1 a \<and> k2 \<le> j \<and> j < k2 + size2 a
               then a ! (i - k1) ! (j - k2) else result ! i ! j)"

datatype CBLAS_TRANSPOSE = CblasNoTrans | CblasTrans

fun op_m :: "CBLAS_TRANSPOSE \<Rightarrow> 'a list list \<Rightarrow> 'a list list" where
  "op_m CblasNoTrans a = a"
| "op_m CblasTrans a = transpose_m a"

definition gsl_blas_ddot :: "gsl_vector \<Rightarrow> gsl_vector \<Rightarrow> real" where
  "gsl_blas_ddot u v = (\<Sum>k\<leftarrow>[0..<length u]. u ! k * v ! k)"

text \<open>
  \<^verbatim>\<open>C := alpha * op(A) * op(B) + beta * C\<close>. The result has the size of the product
  \<open>op(A) op(B)\<close>, which is the size of \<^verbatim>\<open>C\<close> at every call of the source.
\<close>

definition gsl_blas_dgemm ::
  "CBLAS_TRANSPOSE \<Rightarrow> CBLAS_TRANSPOSE \<Rightarrow> real \<Rightarrow> gsl_matrix \<Rightarrow> gsl_matrix \<Rightarrow> real \<Rightarrow> gsl_matrix
     \<Rightarrow> gsl_matrix" where
  "gsl_blas_dgemm ta tb alpha a b beta c =
     (let a' = op_m ta a; b' = op_m tb b
      in mat (size1 a') (size2 b')
           (\<lambda>i j. alpha * (\<Sum>k\<leftarrow>[0..<size2 a']. a' ! i ! k * b' ! k ! j) + beta * c ! i ! j))"

text \<open>\<^verbatim>\<open>y := alpha * A * x + beta * y\<close> (only the untransposed form is used).\<close>

definition gsl_blas_dgemv :: "real \<Rightarrow> gsl_matrix \<Rightarrow> gsl_vector \<Rightarrow> real \<Rightarrow> gsl_vector \<Rightarrow> gsl_vector" where
  "gsl_blas_dgemv alpha a x beta y =
     map (\<lambda>i. alpha * (\<Sum>k\<leftarrow>[0..<size2 a]. a ! i ! k * x ! k) + beta * y ! i) [0..<size1 a]"

text \<open>
  \<^verbatim>\<open>gsl_matrix_alloc\<close> and \<^verbatim>\<open>gsl_vector_alloc\<close> return objects of the given size whose
  content is indeterminate. The model fills them with zeros; each buffer of the source
  is written in full before it is read (\<open>dgemm\<close> with \<open>beta = 0\<close>, a copy, an
  initialisation or a block assembly that covers it), which the lemmas
  \<open>dgemm_beta_0\<close>, \<open>concatenate2x2_blocks\<close> and \<open>concatenate_vertical_blocks\<close>
  below make precise.
\<close>

definition gsl_matrix_alloc :: "nat \<Rightarrow> nat \<Rightarrow> gsl_matrix" where
  "gsl_matrix_alloc n m = mat n m (\<lambda>i j. 0)"

definition gsl_vector_alloc :: "nat \<Rightarrow> gsl_vector" where
  "gsl_vector_alloc n = map (\<lambda>i. 0) [0..<n]"

text \<open>
  Modelled from the spec: LU-decomposition-based inversion. The pair of calls
  \<^verbatim>\<open>gsl_linalg_LU_decomp\<close>, \<^verbatim>\<open>gsl_linalg_LU_invert\<close> is a parameter of the model: it
  maps the matrix to the status code the library returns (\<open>0\<close> is \<^verbatim>\<open>GSL_SUCCESS\<close>) and
  to the entries of the output matrix after the calls. The model describes the
  inversions that the library carries out. When the library reports a failure, what
  happens is decided by its error handler, which is set outside \<^verbatim>\<open>controller.c\<close>: the
  default handler aborts the process inside the library, and when the handler returns
  the output matrix keeps its previous content. Neither is a function of the matrix
  alone, and neither is described here.
\<close>

type_synonym lu_kernel = "gsl_matrix \<Rightarrow> int \<times> (nat \<Rightarrow> nat \<Rightarrow> real)"

text \<open>The exponential \<^verbatim>\<open>gsl_linalg_exponential_ss\<close> is a parameter too.\<close>

type_synonym exp_kernel = "gsl_matrix \<Rightarrow> gsl_matrix"

subsection \<open>The helpers of \<^verbatim>\<open>controller.c\<close>\<close>

text \<open>
  \<^verbatim>\<open>invert\<close> is a \<^verbatim>\<open>void\<close> function: it drops both status codes. At every call the
  output matrix \<^verbatim>\<open>inv\<close> has the size of \<^verbatim>\<open>mat\<close>; the result is its content on return
  from an inversion that the library carries out.
\<close>

definition invert :: "lu_kernel \<Rightarrow> gsl_matrix \<Rightarrow> gsl_matrix" where
  "invert lu m = mat (size1 m) (size2 m) (snd (lu m))"

definition concatenate2x2 ::
  "gsl_matrix \<Rightarrow> gsl_matrix \<Rightarrow> gsl_matrix \<Rightarrow> gsl_matrix \<Rightarrow> gsl_matrix \<Rightarrow> gsl_matrix" where
  "concatenate2x2 a b c d result =
     (let result = memcpy_submatrix result 0 0 a;
          result = memcpy_submatrix result 0 (size2 a) b;
          result = memcpy_submatrix result (size1 a) 0 c;
          result = memcpy_submatrix result (size1 a) (size2 a) d
      in result)"

definition concatenate_vertical ::
  "'a list list \<Rightarrow> 'a list list \<Rightarrow> 'a list list \<Rightarrow> 'a list list" where
  "concatenate_vertical a b result =
     (let result = memcpy_submatrix result 0 0 a;
          result = memcpy_submatrix result (size1 a) 0 b
      in result)"

section \<open>The controller\<close>

definition J1 :: real where "J1 = 3196587857 / 10 ^ 11"
definition J2 :: real where "J2 = 3229090604 / 10 ^ 11"
definition J3 :: real where "J3 = 702534780 / 10 ^ 11"
definition DT :: real where "DT = 4"
definition MEAN_MOTION :: real where "MEAN_MOTION = 1144035952968 / 10 ^ 15"
definition NR_TOLERANCE :: real where "NR_TOLERANCE = 1 / 10 ^ 3"
definition POS_COST :: real where "POS_COST = 15 / 10 ^ 8"
definition VEL_COST :: real where "VEL_COST = 15 / 10 ^ 4"
definition INPUT_COST :: real where "INPUT_COST = 10 ^ 7"

text \<open>
  The \<^verbatim>\<open>Controller\<close> structure, as \<^verbatim>\<open>initializeController\<close> allocates it; the field
  \<^verbatim>\<open>cntl->x\<close> is \<open>cntl_x\<close>, and so on.
\<close>

record Controller =
  cntl_A_c :: gsl_matrix
  cntl_A_d :: gsl_matrix
  cntl_Q :: gsl_matrix
  cntl_R :: gsl_matrix
  cntl_J :: gsl_matrix
  cntl_x :: gsl_vector
  cntl_u :: gsl_vector
  cntl_b :: gsl_vector
  cntl_bmat :: gsl_matrix
  cntl_B_c :: gsl_matrix
  cntl_B_d :: gsl_matrix
  cntl_P :: gsl_matrix
  cntl_K :: gsl_matrix
  cntl_I_6 :: gsl_matrix
  cntl_Zero_6 :: gsl_matrix
  cntl_Zero_3 :: gsl_matrix

subsection \<open>updateSensors\<close>

text \<open>
  The three sensor functions are external; what they write through their pointer
  arguments is the input of the model.
\<close>

record sensors =
  getAngularPosition :: "real \<times> real \<times> real"
  getAngularVelocity :: "real \<times> real \<times> real"
  getMagneticField :: "real \<times> real \<times> real"

definition updateSensors :: "sensors \<Rightarrow> Controller \<Rightarrow> Controller" where
  "updateSensors s cntl =
     (let (x0, x1, x2) = getAngularPosition s;
          (x3, x4, x5) = getAngularVelocity s;
          (b0, b1, b2) = getMagneticField s;
          x4' = x4 + MEAN_MOTION
      in cntl\<lparr>cntl_x := [x0, x1, x2, x3, x4', x5], cntl_b := [b0, b1, b2]\<rparr>)"

subsection \<open>The skew matrix of the field vector\<close>

text \<open>The array \<^verbatim>\<open>bmat\<close> that \<^verbatim>\<open>computeBMatrices\<close> copies into \<^verbatim>\<open>cntl->bmat\<close>.\<close>

definition bmat_of :: "gsl_vector \<Rightarrow> gsl_matrix" where
  "bmat_of bv =
     (let b1 = gsl_vector_get bv 0; b2 = gsl_vector_get bv 1; b3 = gsl_vector_get bv 2
      in [[0, - b3, b2],
          [b3, 0, - b1],
          [- b2, b1, 0]])"

subsection \<open>initializeController\<close>

definition initializeController :: "exp_kernel \<Rightarrow> Controller" where
  "initializeController expm =
     (let n = MEAN_MOTION;
          J12 = (J1 - J2) / J3;
          J23 = (J2 - J3) / J1;
          J31 = (J3 - J1) / J2;
          A_c = [[0, 0, n, 1, 0, 0],
                 [0, 0, 0, 0, 1, 0],
                 [- n, 0, 0, 0, 0, 1],
                 [- 3 * n * n * J23, 0, 0, 0, 0, - n * J23],
                 [0, 3 * n * n * J31, 0, 0, 0, 0],
                 [0, 0, 0, - n * J12, 0, 0]];
          A_d = gsl_matrix_memcpy (gsl_matrix_alloc 6 6) A_c;
          A_d = gsl_matrix_scale A_d DT;
          A_d = expm A_d;
          Q = [[POS_COST, 0, 0, 0, 0, 0],
               [0, POS_COST, 0, 0, 0, 0],
               [0, 0, POS_COST, 0, 0, 0],
               [0, 0, 0, VEL_COST, 0, 0],
               [0, 0, 0, 0, VEL_COST, 0],
               [0, 0, 0, 0, 0, VEL_COST]];
          R = [[INPUT_COST, 0, 0],
               [0, INPUT_COST, 0],
               [0, 0, INPUT_COST]];
          J = [[J1, 0, 0],
               [0, J2, 0],
               [0, 0, J3]]
      in \<lparr>cntl_A_c = A_c, cntl_A_d = A_d, cntl_Q = Q, cntl_R = R, cntl_J = J,
          cntl_x = gsl_vector_alloc 6, cntl_u = gsl_vector_alloc 3, cntl_b = gsl_vector_alloc 3,
          cntl_bmat = gsl_matrix_alloc 3 3,
          cntl_B_c = gsl_matrix_alloc 6 3, cntl_B_d = gsl_matrix_alloc 6 3,
          cntl_P = gsl_matrix_alloc 6 6, cntl_K = gsl_matrix_alloc 3 6,
          cntl_I_6 = gsl_matrix_set_identity (gsl_matrix_alloc 6 6),
          cntl_Zero_6 = gsl_matrix_set_zero (gsl_matrix_alloc 6 6),
          cntl_Zero_3 = gsl_matrix_set_zero (gsl_matrix_alloc 3 3)\<rparr>)"

subsection \<open>computeBMatrices\<close>

text \<open>
  The function keeps \<^verbatim>\<open>static\<close> pointers, \<^verbatim>\<open>NULL\<close> until the first call. The matrices
  computed in the first-call block persist between calls and are the static state of the
  model (\<open>None\<close> before the first call); \<^verbatim>\<open>quotient\<close> and \<^verbatim>\<open>J_inv_quotient\<close> are
  overwritten by every call before they are read. The definition describes the calls
  with \<open>b \<cdot> b \<noteq> 0\<close>, where the quotient \<^verbatim>\<open>1/bT_b\<close> is a real number; the calls with
  \<open>b \<cdot> b = 0\<close> are the subject of the next subsection.
\<close>

record bmat_statics =
  bm_J_inv :: gsl_matrix
  bm_A_c_inv :: gsl_matrix
  bm_I_minus_A_d :: gsl_matrix
  bm_transform :: gsl_matrix

definition computeBMatrices_first :: "lu_kernel \<Rightarrow> Controller \<Rightarrow> bmat_statics" where
  "computeBMatrices_first lu cntl =
     (let J_inv = invert lu (cntl_J cntl);
          A_c_inv = invert lu (cntl_A_c cntl);
          I_minus_A_d = gsl_matrix_set_identity (gsl_matrix_alloc 6 6);
          I_minus_A_d = gsl_matrix_sub I_minus_A_d (cntl_A_d cntl);
          transform = gsl_blas_dgemm CblasNoTrans CblasNoTrans (- 1) A_c_inv I_minus_A_d 0
                        (gsl_matrix_alloc 6 6)
      in \<lparr>bm_J_inv = J_inv, bm_A_c_inv = A_c_inv, bm_I_minus_A_d = I_minus_A_d,
          bm_transform = transform\<rparr>)"

definition computeBMatrices ::
  "lu_kernel \<Rightarrow> bmat_statics option \<Rightarrow> Controller \<Rightarrow> bmat_statics option \<times> Controller" where
  "computeBMatrices lu st cntl =
     (let s = (case st of None \<Rightarrow> computeBMatrices_first lu cntl | Some s \<Rightarrow> s);
          cntl = cntl\<lparr>cntl_bmat := bmat_of (cntl_b cntl)\<rparr>;
          bT_b = gsl_blas_ddot (cntl_b cntl) (cntl_b cntl);
          quotient = gsl_blas_dgemm CblasNoTrans CblasNoTrans (1 / bT_b) (cntl_bmat cntl)
                       (cntl_bmat cntl) 0 (gsl_matrix_alloc 3 3);
          J_inv_quotient = gsl_blas_dgemm CblasNoTrans CblasNoTrans 1 (bm_J_inv s) quotient 0
                             (gsl_matrix_alloc 3 3);
          cntl = cntl\<lparr>cntl_B_c := concatenate_vertical (cntl_Zero_3 cntl) J_inv_quotient
                                    (cntl_B_c cntl)\<rparr>;
          cntl = cntl\<lparr>cntl_B_d := gsl_blas_dgemm CblasNoTrans CblasNoTrans 1 (bm_transform s)
                                    (cntl_B_c cntl) 0 (cntl_B_d cntl)\<rparr>
      in (Some s, cntl))"

subsection \<open>computeBMatrices where the field vector has no length\<close>

text \<open>
  \<^verbatim>\<open>computeBMatrices\<close> evaluates \<^verbatim>\<open>1/bT_b\<close> with no test of \<^verbatim>\<open>bT_b\<close>. Where
  \<open>b \<cdot> b \<noteq> 0\<close> the quotient is a real number and the definition above applies. Where
  \<open>b \<cdot> b = 0\<close> the division of the source is a division of \<^verbatim>\<open>double\<close> values by zero,
  and what it yields is not a real number: IEEE 754 arithmetic gives an infinity for
  \<open>1 / 0\<close> and NaN for the product of an infinity and zero. For that case the function is
  embedded a second time, over values that include them.

  A \<^verbatim>\<open>double\<close> is a finite number, one of the two infinities, or NaN. Arithmetic on
  finite numbers is exact, as before (no rounding, overflow or underflow), and there is
  one zero, the positive one (a sum of squares such as \<^verbatim>\<open>bT_b\<close> is never the negative
  zero); on the other values it is that of IEEE 754.
\<close>

datatype double = Fin real | PInf | NInf | NaN

fun double_neg :: "double \<Rightarrow> double" where
  "double_neg (Fin x) = Fin (- x)"
| "double_neg PInf = NInf"
| "double_neg NInf = PInf"
| "double_neg NaN = NaN"

fun double_add :: "double \<Rightarrow> double \<Rightarrow> double" where
  "double_add (Fin x) (Fin y) = Fin (x + y)"
| "double_add NaN y = NaN"
| "double_add x NaN = NaN"
| "double_add PInf NInf = NaN"
| "double_add NInf PInf = NaN"
| "double_add PInf y = PInf"
| "double_add x PInf = PInf"
| "double_add NInf y = NInf"
| "double_add x NInf = NInf"

fun double_mult :: "double \<Rightarrow> double \<Rightarrow> double" where
  "double_mult (Fin x) (Fin y) = Fin (x * y)"
| "double_mult NaN y = NaN"
| "double_mult x NaN = NaN"
| "double_mult PInf (Fin y) = (if y = 0 then NaN else if 0 < y then PInf else NInf)"
| "double_mult NInf (Fin y) = (if y = 0 then NaN else if 0 < y then NInf else PInf)"
| "double_mult (Fin x) PInf = (if x = 0 then NaN else if 0 < x then PInf else NInf)"
| "double_mult (Fin x) NInf = (if x = 0 then NaN else if 0 < x then NInf else PInf)"
| "double_mult PInf PInf = PInf"
| "double_mult PInf NInf = NInf"
| "double_mult NInf PInf = NInf"
| "double_mult NInf NInf = PInf"

fun double_div :: "double \<Rightarrow> double \<Rightarrow> double" where
  "double_div (Fin x) (Fin y) =
     (if y \<noteq> 0 then Fin (x / y) else if x = 0 then NaN else if 0 < x then PInf else NInf)"
| "double_div NaN y = NaN"
| "double_div x NaN = NaN"
| "double_div (Fin x) PInf = Fin 0"
| "double_div (Fin x) NInf = Fin 0"
| "double_div PInf (Fin y) = (if 0 \<le> y then PInf else NInf)"
| "double_div NInf (Fin y) = (if 0 \<le> y then NInf else PInf)"
| "double_div PInf PInf = NaN"
| "double_div PInf NInf = NaN"
| "double_div NInf PInf = NaN"
| "double_div NInf NInf = NaN"

fun double_sum :: "double list \<Rightarrow> double" where
  "double_sum [] = Fin 0"
| "double_sum (x # xs) = double_add x (double_sum xs)"

text \<open>A matrix of real numbers, read as a matrix of finite \<^verbatim>\<open>double\<close> values.\<close>

definition finite_m :: "gsl_matrix \<Rightarrow> double list list" where
  "finite_m a = map (map Fin) a"

text \<open>
  Modelled from the spec: the dot product and \<^verbatim>\<open>C := alpha * op(A) * op(B) + beta * C\<close>
  as above, in this arithmetic: every product and every sum of the formula is carried
  out, so that a NaN among the operands of an entry reaches that entry. With \<open>beta = 0\<close>
  the content of \<^verbatim>\<open>C\<close> is not read.
\<close>

definition gsl_blas_ddot_ieee :: "double list \<Rightarrow> double list \<Rightarrow> double" where
  "gsl_blas_ddot_ieee u v = double_sum (map (\<lambda>k. double_mult (u ! k) (v ! k)) [0..<length u])"

definition gsl_blas_dgemm_ieee ::
  "CBLAS_TRANSPOSE \<Rightarrow> CBLAS_TRANSPOSE \<Rightarrow> double \<Rightarrow> double list list \<Rightarrow> double list list \<Rightarrow> double
     \<Rightarrow> double list list \<Rightarrow> double list list" where
  "gsl_blas_dgemm_ieee ta tb alpha a b beta c =
     (let a' = op_m ta a; b' = op_m tb b
      in mat (size1 a') (size2 b')
           (\<lambda>i j. let t = double_mult alpha
                              (double_sum (map (\<lambda>k. double_mult (a' ! i ! k) (b' ! k ! j))
                                 [0..<size2 a']))
                  in if beta = Fin 0 then t else double_add t (double_mult beta (c ! i ! j))))"

text \<open>
  The statements of \<^verbatim>\<open>computeBMatrices\<close> after its first-call block, on a controller whose
  entries are finite; the matrices \<^verbatim>\<open>J_inv\<close> and \<^verbatim>\<open>transform\<close> of the first-call block
  are those of the definition above, and \<^verbatim>\<open>cntl->bmat\<close> holds the copy of the array
  \<^verbatim>\<open>bmat\<close>. The result is the content of \<^verbatim>\<open>cntl->B_c\<close> and of \<^verbatim>\<open>cntl->B_d\<close> on return.
\<close>

definition computeBMatrices_ieee ::
  "lu_kernel \<Rightarrow> bmat_statics option \<Rightarrow> Controller \<Rightarrow> double list list \<times> double list list" where
  "computeBMatrices_ieee lu st cntl =
     (let s = (case st of None \<Rightarrow> computeBMatrices_first lu cntl | Some s \<Rightarrow> s);
          b1 = Fin (gsl_vector_get (cntl_b cntl) 0);
          b2 = Fin (gsl_vector_get (cntl_b cntl) 1);
          b3 = Fin (gsl_vector_get (cntl_b cntl) 2);
          bmat = [[Fin 0, double_neg b3, b2],
                  [b3, Fin 0, double_neg b1],
                  [double_neg b2, b1, Fin 0]];
          bT_b = gsl_blas_ddot_ieee (map Fin (cntl_b cntl)) (map Fin (cntl_b cntl));
          quotient = gsl_blas_dgemm_ieee CblasNoTrans CblasNoTrans (double_div (Fin 1) bT_b)
                       bmat bmat (Fin 0) (finite_m (gsl_matrix_alloc 3 3));
          J_inv_quotient = gsl_blas_dgemm_ieee CblasNoTrans CblasNoTrans (Fin 1)
                             (finite_m (bm_J_inv s)) quotient (Fin 0)
                             (finite_m (gsl_matrix_alloc 3 3));
          B_c = concatenate_vertical (finite_m (cntl_Zero_3 cntl)) J_inv_quotient
                  (finite_m (cntl_B_c cntl));
          B_d = gsl_blas_dgemm_ieee CblasNoTrans CblasNoTrans (Fin 1) (finite_m (bm_transform s))
                  B_c (Fin 0) (finite_m (cntl_B_d cntl))
      in (B_c, B_d))"

subsection \<open>newtonRaphsonConverged and runNewtonRaphsonProcess\<close>

text \<open>
  The two nested \<^verbatim>\<open>for\<close> loops, from the position \<open>(i, j)\<close> on: \<open>False\<close> is the early
  \<^verbatim>\<open>return false\<close>, \<open>True\<close> the \<^verbatim>\<open>return true\<close> after both loops.
\<close>

function converged_from :: "gsl_matrix \<Rightarrow> gsl_matrix \<Rightarrow> nat \<Rightarrow> nat \<Rightarrow> bool" where
  "converged_from S S_prev i j =
     (if i < 12 then
        (if j < 12 then
           (if \<bar>gsl_matrix_get S i j - gsl_matrix_get S_prev i j\<bar> > NR_TOLERANCE then False
            else converged_from S S_prev i (j + 1))
         else converged_from S S_prev (i + 1) 0)
      else True)"
  by pat_completeness auto
termination
  by (relation "measures [\<lambda>(S, S_prev, i, j). 12 - i, \<lambda>(S, S_prev, i, j). 12 - j]") auto

definition newtonRaphsonConverged :: "gsl_matrix \<Rightarrow> gsl_matrix \<Rightarrow> bool" where
  "newtonRaphsonConverged S S_prev = converged_from S S_prev 0 0"

text \<open>
  One pass through the body of the \<^verbatim>\<open>do ... while\<close> loop: the new content of \<^verbatim>\<open>S\<close>
  and of \<^verbatim>\<open>S_prev\<close>.
\<close>

definition newton_body :: "lu_kernel \<Rightarrow> gsl_matrix \<Rightarrow> gsl_matrix \<Rightarrow> gsl_matrix \<times> gsl_matrix" where
  "newton_body lu H_squared S =
     (let S_prev = gsl_matrix_memcpy (gsl_matrix_alloc 12 12) S;
          S_inverse = invert lu S;
          S = gsl_blas_dgemm CblasNoTrans CblasNoTrans (1 / 2) S_inverse H_squared (1 / 2) S
      in (S, S_prev))"

text \<open>The loop has no bound on its iterations: \<open>None\<close> is the run that never leaves it.\<close>

partial_function (option) newton_loop :: "lu_kernel \<Rightarrow> gsl_matrix \<Rightarrow> gsl_matrix \<Rightarrow> gsl_matrix option" where
  "newton_loop lu H_squared S =
     (case newton_body lu H_squared S of
        (S', S_prev) \<Rightarrow>
          if \<not> newtonRaphsonConverged S' S_prev then newton_loop lu H_squared S' else Some S')"

definition runNewtonRaphsonProcess :: "lu_kernel \<Rightarrow> gsl_matrix \<Rightarrow> gsl_matrix \<Rightarrow> gsl_matrix option" where
  "runNewtonRaphsonProcess lu H S =
     (let S = gsl_matrix_set_identity S;
          H_squared = gsl_blas_dgemm CblasNoTrans CblasNoTrans 1 H H 0 (gsl_matrix_alloc 12 12)
      in newton_loop lu H_squared S)"

subsection \<open>computePMatrix\<close>

text \<open>
  Of the thirteen \<^verbatim>\<open>static\<close> matrices, the four written in the first-call block persist;
  the others are written by every call before they are read.
\<close>

record pmat_statics =
  pm_negativeQ :: gsl_matrix
  pm_N :: gsl_matrix
  pm_R_inverse :: gsl_matrix
  pm_A_d_transpose :: gsl_matrix

definition computePMatrix_first :: "lu_kernel \<Rightarrow> Controller \<Rightarrow> pmat_statics" where
  "computePMatrix_first lu cntl =
     (let negativeQ = gsl_matrix_memcpy (gsl_matrix_alloc 6 6) (cntl_Q cntl);
          negativeQ = gsl_matrix_scale negativeQ (- 1);
          N = concatenate2x2 (cntl_A_d cntl) (cntl_Zero_6 cntl) negativeQ (cntl_I_6 cntl)
                (gsl_matrix_alloc 12 12);
          R_inverse = invert lu (cntl_R cntl);
          A_d_transpose = gsl_matrix_transpose_memcpy (gsl_matrix_alloc 6 6) (cntl_A_d cntl)
      in \<lparr>pm_negativeQ = negativeQ, pm_N = N, pm_R_inverse = R_inverse,
          pm_A_d_transpose = A_d_transpose\<rparr>)"

text \<open>The matrix \<^verbatim>\<open>H\<close> handed to the Newton iteration.\<close>

definition computePMatrix_H :: "lu_kernel \<Rightarrow> pmat_statics \<Rightarrow> Controller \<Rightarrow> gsl_matrix" where
  "computePMatrix_H lu s cntl =
     (let Rinv_BdT = gsl_blas_dgemm CblasNoTrans CblasTrans 1 (pm_R_inverse s) (cntl_B_d cntl) 0
                       (gsl_matrix_alloc 3 6);
          Bd_Rinv_BdT = gsl_blas_dgemm CblasNoTrans CblasNoTrans 1 (cntl_B_d cntl) Rinv_BdT 0
                          (gsl_matrix_alloc 6 6);
          L = concatenate2x2 (cntl_I_6 cntl) Bd_Rinv_BdT (cntl_Zero_6 cntl) (pm_A_d_transpose s)
                (gsl_matrix_alloc 12 12);
          N_plus_L = gsl_matrix_memcpy (gsl_matrix_alloc 12 12) (pm_N s);
          N_plus_L = gsl_matrix_add N_plus_L L;
          N_plus_L_inverse = invert lu N_plus_L;
          N_minus_L = gsl_matrix_memcpy (gsl_matrix_alloc 12 12) (pm_N s);
          N_minus_L = gsl_matrix_sub N_minus_L L
      in gsl_blas_dgemm CblasNoTrans CblasNoTrans 1 N_plus_L_inverse N_minus_L 0
           (gsl_matrix_alloc 12 12))"

definition computePMatrix ::
  "lu_kernel \<Rightarrow> pmat_statics option \<Rightarrow> Controller \<Rightarrow> (pmat_statics option \<times> Controller) option" where
  "computePMatrix lu st cntl =
     (let s = (case st of None \<Rightarrow> computePMatrix_first lu cntl | Some s \<Rightarrow> s);
          H = computePMatrix_H lu s cntl
      in case runNewtonRaphsonProcess lu H (gsl_matrix_alloc 12 12) of
           None \<Rightarrow> None
         | Some S \<Rightarrow>
             (let H = gsl_matrix_sub H S;
                  X1 = gsl_matrix_submatrix H 0 0 6 6;
                  X2 = gsl_matrix_submatrix H 6 0 6 6;
                  X1_inverse = invert lu X1
              in Some (Some s,
                       cntl\<lparr>cntl_P := gsl_blas_dgemm CblasNoTrans CblasNoTrans 1 X2 X1_inverse 0
                                         (cntl_P cntl)\<rparr>)))"

subsection \<open>computeGainMatrix and sendMTInputs\<close>

text \<open>The six \<^verbatim>\<open>static\<close> matrices of \<^verbatim>\<open>computeGainMatrix\<close> are all written before read.\<close>

definition computeGainMatrix :: "lu_kernel \<Rightarrow> Controller \<Rightarrow> Controller" where
  "computeGainMatrix lu cntl =
     (let P_Ad = gsl_blas_dgemm CblasNoTrans CblasNoTrans 1 (cntl_P cntl) (cntl_A_d cntl) 0
                   (gsl_matrix_alloc 6 6);
          BdT_P_Ad = gsl_blas_dgemm CblasTrans CblasNoTrans 1 (cntl_B_d cntl) P_Ad 0
                       (gsl_matrix_alloc 3 6);
          P_Bd = gsl_blas_dgemm CblasNoTrans CblasNoTrans 1 (cntl_P cntl) (cntl_B_d cntl) 0
                   (gsl_matrix_alloc 6 3);
          BdT_P_Bd = gsl_blas_dgemm CblasTrans CblasNoTrans 1 (cntl_B_d cntl) P_Bd 0
                       (gsl_matrix_alloc 3 3);
          R_plus_BdT_P_Bd = gsl_matrix_memcpy (gsl_matrix_alloc 3 3) (cntl_R cntl);
          R_plus_BdT_P_Bd = gsl_matrix_add R_plus_BdT_P_Bd BdT_P_Bd;
          R_plus_BdT_P_Bd_inv = invert lu R_plus_BdT_P_Bd
      in cntl\<lparr>cntl_K := gsl_blas_dgemm CblasNoTrans CblasNoTrans 1 R_plus_BdT_P_Bd_inv BdT_P_Ad 0
                           (cntl_K cntl)\<rparr>)"

text \<open>The second component is the triple handed to \<^verbatim>\<open>setMagnetorquer\<close>.\<close>

definition sendMTInputs :: "Controller \<Rightarrow> Controller \<times> (real \<times> real \<times> real)" where
  "sendMTInputs cntl =
     (let cntl = cntl\<lparr>cntl_u := gsl_blas_dgemv (- 1) (cntl_K cntl) (cntl_x cntl) 0 (cntl_u cntl)\<rparr>
      in (cntl, (gsl_vector_get (cntl_u cntl) 0, gsl_vector_get (cntl_u cntl) 1,
                 gsl_vector_get (cntl_u cntl) 2)))"

section \<open>The matrix notation of the specification\<close>

text \<open>
  The specification writes products, sums, transposes, inverses and block matrices. These
  definitions follow its notation; the theorems below compare them with what the calls
  of the source compute.
\<close>

definition mmul :: "gsl_matrix \<Rightarrow> gsl_matrix \<Rightarrow> gsl_matrix" where
  "mmul a b = mat (size1 a) (size2 b) (\<lambda>i j. \<Sum>k\<leftarrow>[0..<size2 a]. a ! i ! k * b ! k ! j)"

definition smult :: "real \<Rightarrow> gsl_matrix \<Rightarrow> gsl_matrix" where
  "smult c a = map (map (\<lambda>x. c * x)) a"

definition identity_m :: "nat \<Rightarrow> gsl_matrix" where
  "identity_m n = mat n n (\<lambda>i j. if i = j then 1 else 0)"

definition zero_m :: "nat \<Rightarrow> nat \<Rightarrow> gsl_matrix" where
  "zero_m n m = replicate n (replicate m 0)"

text \<open>The block matrix \<open>[[a, b], [c, d]]\<close> and the stack of \<open>a\<close> over \<open>b\<close>.\<close>

definition block2x2 :: "gsl_matrix \<Rightarrow> gsl_matrix \<Rightarrow> gsl_matrix \<Rightarrow> gsl_matrix \<Rightarrow> gsl_matrix" where
  "block2x2 a b c d = map2 (@) a b @ map2 (@) c d"

definition vstack :: "'a list list \<Rightarrow> 'a list list \<Rightarrow> 'a list list" where
  "vstack a b = a @ b"

text \<open>
  A controller as \<^verbatim>\<open>initializeController\<close> leaves it and the other functions keep it:
  every object has the size it was allocated with, and the three helper matrices hold
  the identity and the zeros.
\<close>

definition wf_Controller :: "Controller \<Rightarrow> bool" where
  "wf_Controller cntl =
     (is_mat 6 6 (cntl_A_c cntl) \<and> is_mat 6 6 (cntl_A_d cntl) \<and> is_mat 6 6 (cntl_Q cntl)
      \<and> is_mat 3 3 (cntl_R cntl) \<and> is_mat 3 3 (cntl_J cntl)
      \<and> length (cntl_x cntl) = 6 \<and> length (cntl_u cntl) = 3 \<and> length (cntl_b cntl) = 3
      \<and> is_mat 3 3 (cntl_bmat cntl) \<and> is_mat 6 3 (cntl_B_c cntl) \<and> is_mat 6 3 (cntl_B_d cntl)
      \<and> is_mat 6 6 (cntl_P cntl) \<and> is_mat 3 6 (cntl_K cntl)
      \<and> cntl_I_6 cntl = identity_m 6 \<and> cntl_Zero_6 cntl = zero_m 6 6
      \<and> cntl_Zero_3 cntl = zero_m 3 3)"

text \<open>\<open>w\<close> is the inverse of the square matrix \<open>m\<close>.\<close>

definition inverse_of :: "gsl_matrix \<Rightarrow> gsl_matrix \<Rightarrow> bool" where
  "inverse_of m w =
     (is_mat (size1 m) (size1 m) m \<and> is_mat (size1 m) (size1 m) w
      \<and> mmul m w = identity_m (size1 m) \<and> mmul w m = identity_m (size1 m))"

text \<open>The matrix \<open>R + B_d\<^sup>t P B_d\<close> and the matrix \<open>B_d\<^sup>t P A_d\<close> of the gain formula.\<close>

definition R_plus_BdT_P_Bd_of :: "Controller \<Rightarrow> gsl_matrix" where
  "R_plus_BdT_P_Bd_of cntl =
     gsl_matrix_add (cntl_R cntl)
       (mmul (mmul (transpose_m (cntl_B_d cntl)) (cntl_P cntl)) (cntl_B_d cntl))"

definition BdT_P_Ad_of :: "Controller \<Rightarrow> gsl_matrix" where
  "BdT_P_Ad_of cntl = mmul (mmul (transpose_m (cntl_B_d cntl)) (cntl_P cntl)) (cntl_A_d cntl)"

text \<open>The transform matrix \<open>- A_c\<^sup>-\<^sup>1 (I - A_d)\<close>, with the kernel's result for the inverse.\<close>

definition transform_of :: "lu_kernel \<Rightarrow> Controller \<Rightarrow> gsl_matrix" where
  "transform_of lu cntl =
     smult (- 1) (mmul (invert lu (cntl_A_c cntl)) (gsl_matrix_sub (identity_m 6) (cntl_A_d cntl)))"

text \<open>
  The continuous input matrix: zeros over \<open>J\<^sup>-\<^sup>1 ([b]\<times> [b]\<times> / (b \<cdot> b))\<close>, for the matrix
  \<open>J_inv\<close> that stands for \<open>J\<^sup>-\<^sup>1\<close>.
\<close>

definition B_c_of :: "gsl_matrix \<Rightarrow> gsl_vector \<Rightarrow> gsl_matrix" where
  "B_c_of J_inv bv =
     vstack (zero_m 3 3)
       (mmul J_inv (smult (1 / (\<Sum>x\<leftarrow>bv. x * x)) (mmul (bmat_of bv) (bmat_of bv))))"

text \<open>
  The block matrices \<open>N = [[A_d, 0], [- Q, I]]\<close> and
  \<open>L = [[I, B_d R\<^sup>-\<^sup>1 B_d\<^sup>t], [0, A_d\<^sup>t]]\<close>, the matrix \<open>H = (N + L)\<^sup>-\<^sup>1 (N - L)\<close> and the
  matrix \<open>P = X2 X1\<^sup>-\<^sup>1\<close> for the top-left block \<open>X1\<close> and the bottom-left block \<open>X2\<close>
  of \<open>H - S\<close>; every inverse is the kernel's result.
\<close>

definition N_of :: "Controller \<Rightarrow> gsl_matrix" where
  "N_of cntl = block2x2 (cntl_A_d cntl) (zero_m 6 6) (smult (- 1) (cntl_Q cntl)) (identity_m 6)"

definition L_of :: "lu_kernel \<Rightarrow> Controller \<Rightarrow> gsl_matrix" where
  "L_of lu cntl =
     block2x2 (identity_m 6)
       (mmul (mmul (cntl_B_d cntl) (invert lu (cntl_R cntl))) (transpose_m (cntl_B_d cntl)))
       (zero_m 6 6) (transpose_m (cntl_A_d cntl))"

definition H_of :: "lu_kernel \<Rightarrow> Controller \<Rightarrow> gsl_matrix" where
  "H_of lu cntl =
     mmul (invert lu (gsl_matrix_add (N_of cntl) (L_of lu cntl)))
       (gsl_matrix_sub (N_of cntl) (L_of lu cntl))"

definition P_of :: "lu_kernel \<Rightarrow> gsl_matrix \<Rightarrow> gsl_matrix \<Rightarrow> gsl_matrix" where
  "P_of lu H S =
     (let D = gsl_matrix_sub H S;
          X1 = map (take 6) (take 6 D);
          X2 = map (take 6) (drop 6 D)
      in mmul X2 (invert lu X1))"

text \<open>Every one of the 144 entries of the difference is within the tolerance \<open>1e-3\<close>.\<close>

definition within_tolerance :: "gsl_matrix \<Rightarrow> gsl_matrix \<Rightarrow> bool" where
  "within_tolerance S S_prev = (\<forall>i<12. \<forall>j<12. \<bar>S ! i ! j - S_prev ! i ! j\<bar> \<le> 1 / 1000)"

text \<open>The Newton sequence \<open>S\<^sub>0 = I\<close>, \<open>S\<^sub>k\<^sub>+\<^sub>1 = (S\<^sub>k + S\<^sub>k\<^sup>-\<^sup>1 H\<^sup>2) / 2\<close>.\<close>

fun newton_seq :: "lu_kernel \<Rightarrow> gsl_matrix \<Rightarrow> nat \<Rightarrow> gsl_matrix" where
  "newton_seq lu H 0 = identity_m 12"
| "newton_seq lu H (Suc k) =
     smult (1 / 2)
       (gsl_matrix_add (newton_seq lu H k) (mmul (invert lu (newton_seq lu H k)) (mmul H H)))"

text \<open>The content of \<^verbatim>\<open>S\<close> after one pass through the loop body.\<close>

definition newton_step :: "lu_kernel \<Rightarrow> gsl_matrix \<Rightarrow> gsl_matrix \<Rightarrow> gsl_matrix" where
  "newton_step lu H_squared S = fst (newton_body lu H_squared S)"

section \<open>A kernel, a controller and a matrix for the examples\<close>

text \<open>
  The kernel of the examples inverts the matrices \<open>[[D1, G], [0, D2]]\<close> with diagonal
  blocks \<open>D1\<close>, \<open>D2\<close>, \<open>G\<close> of size 6 and the diagonal matrices: status \<open>0\<close> and the entries
  \<open>1 / d\<^sub>i\<close> on the diagonal and \<open>- g\<^sub>i / (d\<^sub>i d\<^sub>i\<^sub>+\<^sub>6)\<close> six columns to its right. For a zero
  on the diagonal it reports status \<open>1\<close> (\<^verbatim>\<open>GSL_EDOM\<close>) and leaves zeros.
\<close>

definition band_lu :: lu_kernel where
  "band_lu m =
     (if list_ex (\<lambda>i. m ! i ! i = 0) [0..<size1 m] then (1, \<lambda>i j. 0)
      else (0, \<lambda>i j. if i = j then 1 / (m ! i ! i)
                      else if j = i + 6 \<and> j < size2 m then - (m ! i ! j) / (m ! i ! i * m ! j ! j)
                      else 0))"

text \<open>
  A controller with \<open>A_d = diag (2, 2, 2, 1/2, 1/2, 1/2)\<close>, \<open>B_d = [I; 0]\<close>, \<open>Q = 0\<close>, \<open>R = I\<close>
  and the field vector \<open>(0, 0, 1)\<close>.
\<close>

definition example_cntl :: Controller where
  "example_cntl =
     \<lparr>cntl_A_c = mat 6 6 (\<lambda>i j. if i = j then (if i < 3 then 1 else - 1) else 0),
      cntl_A_d = mat 6 6 (\<lambda>i j. if i = j then (if i < 3 then 2 else 1 / 2) else 0),
      cntl_Q = zero_m 6 6,
      cntl_R = identity_m 3,
      cntl_J = identity_m 3,
      cntl_x = [0, 0, 0, 0, 0, 0],
      cntl_u = [0, 0, 0],
      cntl_b = [0, 0, 1],
      cntl_bmat = zero_m 3 3,
      cntl_B_c = zero_m 6 3,
      cntl_B_d = vstack (identity_m 3) (zero_m 3 3),
      cntl_P = identity_m 6,
      cntl_K = zero_m 3 6,
      cntl_I_6 = identity_m 6,
      cntl_Zero_6 = zero_m 6 6,
      cntl_Zero_3 = zero_m 3 3\<rparr>"

text \<open>The matrix \<open>c I\<close> of size 12.\<close>

definition scalar_m :: "real \<Rightarrow> gsl_matrix" where
  "scalar_m c = mat 12 12 (\<lambda>i j. if i = j then c else 0)"

text \<open>The Newton sequence of numbers for the square root of \<open>c\<close>, from 1.\<close>

fun newton_scalar :: "real \<Rightarrow> nat \<Rightarrow> real" where
  "newton_scalar c 0 = 1"
| "newton_scalar c (Suc k) = (newton_scalar c k + c / newton_scalar c k) / 2"

text \<open>
  The block-diagonal matrix with six blocks \<open>[[0, 3], [-1, 0]]\<close>; its square is \<open>- 3 I\<close>.
\<close>

definition oscillating_H :: gsl_matrix where
  "oscillating_H =
     mat 12 12 (\<lambda>i j. if even i \<and> j = i + 1 then 3 else if odd i \<and> i = j + 1 then - 1 else 0)"

section \<open>Properties\<close>

subsection \<open>Matrices as lists of rows\<close>

lemma length_mat [simp]: "length (mat n m f) = n"
  by (simp add: mat_def)

lemma mat_nth_row [simp]: "i < n \<Longrightarrow> mat n m f ! i = map (f i) [0..<m]"
  by (simp add: mat_def)

lemma mat_nth: "i < n \<Longrightarrow> j < m \<Longrightarrow> mat n m f ! i ! j = f i j"
  by simp

lemma size1_mat [simp]: "size1 (mat n m f) = n"
  by (simp add: size1_def)

lemma size2_mat [simp]: "0 < n \<Longrightarrow> size2 (mat n m f) = m"
  by (simp add: size2_def mat_def upt_conv_Cons)

lemma is_mat_mat [simp]: "is_mat n m (mat n m f)"
  by (simp add: is_mat_def mat_def list_all_iff)

lemma is_mat_alloc [simp]: "is_mat n m (gsl_matrix_alloc n m)"
  by (simp add: gsl_matrix_alloc_def)

lemma is_mat_size1: "is_mat n m a \<Longrightarrow> size1 a = n"
  by (simp add: is_mat_def size1_def)

lemma is_mat_size2: "is_mat n m a \<Longrightarrow> 0 < n \<Longrightarrow> size2 a = m"
  by (cases a) (simp_all add: is_mat_def size2_def)

lemma is_mat_row: "is_mat n m a \<Longrightarrow> i < n \<Longrightarrow> length (a ! i) = m"
  by (simp add: is_mat_def list_all_length)

lemma mat_cong: "(\<And>i j. i < n \<Longrightarrow> j < m \<Longrightarrow> f i j = g i j) \<Longrightarrow> mat n m f = mat n m g"
  by (simp add: mat_def)

lemma mat_eta: "is_mat n m a \<Longrightarrow> mat n m (\<lambda>i j. a ! i ! j) = a"
proof -
  assume h: "is_mat n m a"
  have l: "length a = n" and r: "\<And>i. i < n \<Longrightarrow> length (a ! i) = m"
    using h by (simp_all add: is_mat_def list_all_length)
  show ?thesis
  proof (rule nth_equalityI)
    show "length (mat n m (\<lambda>i j. a ! i ! j)) = length a"
      using l by simp
  next
    fix i assume "i < length (mat n m (\<lambda>i j. a ! i ! j))"
    then have i: "i < n" by simp
    show "mat n m (\<lambda>i j. a ! i ! j) ! i = a ! i"
    proof (rule nth_equalityI)
      show "length (mat n m (\<lambda>i j. a ! i ! j) ! i) = length (a ! i)"
        using i r by simp
    next
      fix j assume "j < length (mat n m (\<lambda>i j. a ! i ! j) ! i)"
      then have "j < m" using i by simp
      then show "mat n m (\<lambda>i j. a ! i ! j) ! i ! j = a ! i ! j"
        using i by simp
    qed
  qed
qed

lemma is_mat_eqI:
  "is_mat n m a \<Longrightarrow> is_mat n m b \<Longrightarrow> (\<And>i j. i < n \<Longrightarrow> j < m \<Longrightarrow> a ! i ! j = b ! i ! j) \<Longrightarrow> a = b"
proof -
  assume a: "is_mat n m a" and b: "is_mat n m b"
    and e: "\<And>i j. i < n \<Longrightarrow> j < m \<Longrightarrow> a ! i ! j = b ! i ! j"
  have "mat n m (\<lambda>i j. a ! i ! j) = mat n m (\<lambda>i j. b ! i ! j)"
    by (rule mat_cong) (rule e)
  then show ?thesis
    using mat_eta[OF a] mat_eta[OF b] by simp
qed

lemma sum_list_upt: "(\<Sum>k\<leftarrow>[0..<n]. f k) = (\<Sum>k<n. f k)"
  by (simp add: interv_sum_list_conv_sum_set_nat atLeast0LessThan)

lemma is_mat_mmul: "is_mat (size1 a) (size2 b) (mmul a b)"
  by (simp add: mmul_def)

lemma mmul_nth:
  "i < size1 a \<Longrightarrow> j < size2 b \<Longrightarrow> mmul a b ! i ! j = (\<Sum>k<size2 a. a ! i ! k * b ! k ! j)"
  by (simp add: mmul_def sum_list_upt)

lemma smult_mat: "smult c (mat n m f) = mat n m (\<lambda>i j. c * f i j)"
  by (simp add: smult_def mat_def comp_def)

lemma is_mat_smult: "is_mat n m a \<Longrightarrow> is_mat n m (smult c a)"
  by (simp add: smult_def is_mat_def list_all_iff)

lemma smult_nth: "is_mat n m a \<Longrightarrow> i < n \<Longrightarrow> j < m \<Longrightarrow> smult c a ! i ! j = c * a ! i ! j"
  by (simp add: smult_def is_mat_def list_all_length)

lemma zero_m_mat: "zero_m n m = mat n m (\<lambda>i j. 0)"
  by (simp add: zero_m_def mat_def map_replicate_trivial[symmetric] del: map_replicate_trivial) 

lemma dgemm_NN:
  "gsl_blas_dgemm CblasNoTrans CblasNoTrans alpha a b 0 c = smult alpha (mmul a b)"
  by (simp add: gsl_blas_dgemm_def mmul_def smult_mat)

lemma dgemm_beta_0:
  "gsl_blas_dgemm ta tb alpha a b 0 c = smult alpha (mmul (op_m ta a) (op_m tb b))"
  by (simp add: gsl_blas_dgemm_def mmul_def smult_mat Let_def)

lemma smult_1: "smult 1 a = a"
  by (simp add: smult_def)

lemma size_mmul: "size1 (mmul a b) = size1 a" "0 < size1 a \<Longrightarrow> size2 (mmul a b) = size2 b"
  by (simp_all add: mmul_def)

lemma mmul_assoc:
  assumes "is_mat n m a" "is_mat m p b" "is_mat p q c" "0 < n" "0 < m" "0 < p"
  shows "mmul (mmul a b) c = mmul a (mmul b c)"
proof (rule is_mat_eqI[of n q])
  have sz: "size1 a = n" "size2 a = m" "size1 b = m" "size2 b = p" "size1 c = p" "size2 c = q"
    using assms by (simp_all add: is_mat_size1 is_mat_size2)
  show "is_mat n q (mmul (mmul a b) c)"
    using is_mat_mmul[of "mmul a b" c] by (simp add: size_mmul sz)
  show "is_mat n q (mmul a (mmul b c))"
    using is_mat_mmul[of a "mmul b c"] assms by (simp add: size_mmul sz)
  fix i j assume ij: "i < n" "j < q"
  have "mmul (mmul a b) c ! i ! j = (\<Sum>k<p. (\<Sum>l<m. a ! i ! l * b ! l ! k) * c ! k ! j)"
    using ij assms by (simp add: mmul_nth size_mmul sz)
  also have "\<dots> = (\<Sum>k<p. \<Sum>l<m. a ! i ! l * b ! l ! k * c ! k ! j)"
    by (simp add: sum_distrib_right)
  also have "\<dots> = (\<Sum>l<m. \<Sum>k<p. a ! i ! l * b ! l ! k * c ! k ! j)"
    by (rule sum.swap)
  also have "\<dots> = (\<Sum>l<m. a ! i ! l * (\<Sum>k<p. b ! l ! k * c ! k ! j))"
    by (simp add: sum_distrib_left mult.assoc)
  also have "\<dots> = mmul a (mmul b c) ! i ! j"
    using ij assms by (simp add: mmul_nth size_mmul sz)
  finally show "mmul (mmul a b) c ! i ! j = mmul a (mmul b c) ! i ! j" .
qed

lemma mmul_smult_right:
  assumes "is_mat n m a" "is_mat m p b" "0 < n" "0 < m"
  shows "mmul a (smult c b) = smult c (mmul a b)"
proof (rule is_mat_eqI[of n p])
  have sz: "size1 a = n" "size2 a = m" "size1 b = m" "size2 b = p"
    using assms by (simp_all add: is_mat_size1 is_mat_size2)
  have sb: "is_mat m p (smult c b)" using assms by (simp add: is_mat_smult)
  have sz': "size2 (smult c b) = p" using sb assms by (simp add: is_mat_size2)
  have ab: "is_mat n p (mmul a b)" using is_mat_mmul[of a b] by (simp add: sz)
  show "is_mat n p (mmul a (smult c b))" using is_mat_mmul[of a "smult c b"] by (simp add: sz sz')
  show "is_mat n p (smult c (mmul a b))" using ab by (rule is_mat_smult)
  fix i j assume ij: "i < n" "j < p"
  have "mmul a (smult c b) ! i ! j = (\<Sum>k<m. a ! i ! k * (c * b ! k ! j))"
    using ij by (simp add: mmul_nth sz sz' smult_nth[OF assms(2)])
  also have "\<dots> = c * (\<Sum>k<m. a ! i ! k * b ! k ! j)"
    by (simp add: sum_distrib_left mult.left_commute)
  also have "\<dots> = smult c (mmul a b) ! i ! j"
    using ij by (simp add: smult_nth[OF ab] mmul_nth sz)
  finally show "mmul a (smult c b) ! i ! j = smult c (mmul a b) ! i ! j" .
qed

lemma is_mat_zero_m [simp]: "is_mat n m (zero_m n m)"
  by (simp add: zero_m_def is_mat_def list_all_iff)

lemma is_mat_identity_m [simp]: "is_mat n n (identity_m n)"
  by (simp add: identity_m_def)

lemma is_mat_block2x2:
  "is_mat n m a \<Longrightarrow> is_mat n p b \<Longrightarrow> is_mat q m c \<Longrightarrow> is_mat q p d
   \<Longrightarrow> is_mat (n + q) (m + p) (block2x2 a b c d)"
  by (auto simp: is_mat_def block2x2_def list_all_iff dest!: set_zip_leftD set_zip_rightD
      elim!: in_set_zipE)

lemma block2x2_nth:
  assumes "is_mat n m a" "is_mat n p b" "is_mat q m c" "is_mat q p d" "i < n + q" "j < m + p"
  shows "block2x2 a b c d ! i ! j =
     (if i < n then (if j < m then a ! i ! j else b ! i ! (j - m))
      else (if j < m then c ! (i - n) ! j else d ! (i - n) ! (j - m)))"
  using assms
  by (auto simp: block2x2_def is_mat_def list_all_length nth_append)

lemma memcpy_submatrix_mat:
  assumes "is_mat N M result" "0 < N" "is_mat n m a" "0 < n"
  shows "memcpy_submatrix result k1 k2 a =
     mat N M (\<lambda>i j. if k1 \<le> i \<and> i < k1 + n \<and> k2 \<le> j \<and> j < k2 + m
                     then a ! (i - k1) ! (j - k2) else result ! i ! j)"
  using assms by (simp add: memcpy_submatrix_def is_mat_size1 is_mat_size2)

lemma concatenate2x2_blocks:
  assumes "is_mat n m a" "is_mat n p b" "is_mat q m c" "is_mat q p d"
    "is_mat (n + q) (m + p) result" "0 < n" "0 < q"
  shows "concatenate2x2 a b c d result = block2x2 a b c d"
proof (rule is_mat_eqI[of "n + q" "m + p"])
  have N: "0 < n + q" using assms by simp
  have eq: "concatenate2x2 a b c d result =
      mat (n + q) (m + p) (\<lambda>i j. if n \<le> i \<and> i < n + q \<and> m \<le> j \<and> j < m + p
         then d ! (i - n) ! (j - m)
         else mat (n + q) (m + p) (\<lambda>i j. if n \<le> i \<and> i < n + q \<and> 0 \<le> j \<and> j < 0 + m
           then c ! (i - n) ! (j - 0)
           else mat (n + q) (m + p) (\<lambda>i j. if 0 \<le> i \<and> i < 0 + n \<and> m \<le> j \<and> j < m + p
             then b ! (i - 0) ! (j - m)
             else mat (n + q) (m + p) (\<lambda>i j. if 0 \<le> i \<and> i < 0 + n \<and> 0 \<le> j \<and> j < 0 + m
               then a ! (i - 0) ! (j - 0) else result ! i ! j) ! i ! j) ! i ! j) ! i ! j)"
    unfolding concatenate2x2_def Let_def
    using assms(1-4,6,7)
    by (simp only: memcpy_submatrix_mat[OF assms(5) N] memcpy_submatrix_mat[OF is_mat_mat N]
        is_mat_size1 is_mat_size2)
  show "is_mat (n + q) (m + p) (concatenate2x2 a b c d result)"
    unfolding eq by simp
  show "is_mat (n + q) (m + p) (block2x2 a b c d)"
    using assms by (simp add: is_mat_block2x2)
  fix i j assume ij: "i < n + q" "j < m + p"
  show "concatenate2x2 a b c d result ! i ! j = block2x2 a b c d ! i ! j"
    unfolding eq using ij
    by (auto simp: block2x2_nth[OF assms(1-4) ij])
qed

lemma vstack_nth:
  assumes "is_mat n m a" "is_mat q m b" "i < n + q"
  shows "vstack a b ! i = (if i < n then a ! i else b ! (i - n))"
  using assms by (auto simp: vstack_def is_mat_def nth_append)

lemma is_mat_vstack: "is_mat n m a \<Longrightarrow> is_mat q m b \<Longrightarrow> is_mat (n + q) m (vstack a b)"
  by (auto simp: is_mat_def vstack_def)

lemma concatenate_vertical_blocks:
  assumes "is_mat n m a" "is_mat q m b" "is_mat (n + q) m result" "0 < n" "0 < q"
  shows "concatenate_vertical a b result = vstack a b"
proof (rule is_mat_eqI[of "n + q" m])
  have N: "0 < n + q" using assms by simp
  have eq: "concatenate_vertical a b result =
      mat (n + q) m (\<lambda>i j. if n \<le> i \<and> i < n + q \<and> 0 \<le> j \<and> j < 0 + m
         then b ! (i - n) ! (j - 0)
         else mat (n + q) m (\<lambda>i j. if 0 \<le> i \<and> i < 0 + n \<and> 0 \<le> j \<and> j < 0 + m
               then a ! (i - 0) ! (j - 0) else result ! i ! j) ! i ! j)"
    unfolding concatenate_vertical_def Let_def
    using assms(1,2,4,5)
    by (simp only: memcpy_submatrix_mat[OF assms(3) N] memcpy_submatrix_mat[OF is_mat_mat N]
        is_mat_size1 is_mat_size2)
  show "is_mat (n + q) m (concatenate_vertical a b result)"
    unfolding eq by simp
  show "is_mat (n + q) m (vstack a b)"
    using assms by (simp add: is_mat_vstack)
  fix i j assume ij: "i < n + q" "j < m"
  show "concatenate_vertical a b result ! i ! j = vstack a b ! i ! j"
    unfolding eq using ij
    by (auto simp: vstack_nth[OF assms(1,2) ij(1)])
qed

lemma wf_ControllerD:
  assumes "wf_Controller cntl"
  shows "is_mat 6 6 (cntl_A_c cntl)" "is_mat 6 6 (cntl_A_d cntl)" "is_mat 6 6 (cntl_Q cntl)"
    "is_mat 3 3 (cntl_R cntl)" "is_mat 3 3 (cntl_J cntl)" "length (cntl_b cntl) = 3"
    "is_mat 6 3 (cntl_B_c cntl)" "is_mat 6 3 (cntl_B_d cntl)" "is_mat 6 6 (cntl_P cntl)"
    "is_mat 3 6 (cntl_K cntl)" "cntl_I_6 cntl = identity_m 6" "cntl_Zero_6 cntl = zero_m 6 6"
    "cntl_Zero_3 cntl = zero_m 3 3"
  using assms by (simp_all add: wf_Controller_def)

lemma is_mat_transpose_m: "is_mat n m a \<Longrightarrow> 0 < n \<Longrightarrow> is_mat m n (transpose_m a)"
  by (simp add: transpose_m_def is_mat_size1 is_mat_size2)

lemma is_mat_mmul': "is_mat n m a \<Longrightarrow> is_mat m p b \<Longrightarrow> 0 < m \<Longrightarrow> is_mat n p (mmul a b)"
  using is_mat_mmul[of a b] by (simp add: is_mat_size1 is_mat_size2)

lemma is_mat_add: "is_mat n m a \<Longrightarrow> 0 < n \<Longrightarrow> is_mat n m (gsl_matrix_add a b)"
  by (simp add: gsl_matrix_add_def is_mat_size1 is_mat_size2)

lemma is_mat_sub: "is_mat n m a \<Longrightarrow> 0 < n \<Longrightarrow> is_mat n m (gsl_matrix_sub a b)"
  by (simp add: gsl_matrix_sub_def is_mat_size1 is_mat_size2)

lemma is_mat_invert: "is_mat n m a \<Longrightarrow> 0 < n \<Longrightarrow> is_mat n m (invert lu a)"
  by (simp add: invert_def is_mat_size1 is_mat_size2)

lemma mmul_identity_left:
  assumes "is_mat n m a" "0 < n"
  shows "mmul (identity_m n) a = a"
proof (rule is_mat_eqI[of n m])
  show "is_mat n m (mmul (identity_m n) a)"
    using assms by (intro is_mat_mmul'[of _ n]) simp_all
  show "is_mat n m a" by fact
  fix i j assume ij: "i < n" "j < m"
  have "mmul (identity_m n) a ! i ! j = (\<Sum>k<n. (if i = k then 1 else 0) * a ! k ! j)"
    using ij assms by (simp add: mmul_nth is_mat_size1 is_mat_size2 identity_m_def)
  also have "\<dots> = (\<Sum>k<n. if k = i then a ! k ! j else 0)"
    by (intro sum.cong) auto
  also have "\<dots> = a ! i ! j"
    using ij by simp
  finally show "mmul (identity_m n) a ! i ! j = a ! i ! j" .
qed

lemma upt_3: "[0..<3] = [0, 1, 2]"
  by (simp add: upt_conv_Cons)

lemma upt_6: "[0..<6] = [0, 1, 2, 3, 4, 5]"
  by (simp add: upt_conv_Cons)

lemma upt_12: "[0..<12] = [0, 1, 2, 3, 4, 5, 6, 7, 8, 9, 10, 11]"
  by (simp add: upt_conv_Cons)

lemma wf_example_cntl: "wf_Controller example_cntl"
proof -
  have "is_mat (3 + 3) 3 (vstack (identity_m 3) (zero_m 3 3))"
    by (rule is_mat_vstack) simp_all
  then show ?thesis
    by (simp add: wf_Controller_def example_cntl_def)
qed

text \<open>The unfoldings that evaluate a matrix expression at concrete matrices.\<close>

lemmas eval_matrix =
  mat_def mmul_def smult_def identity_m_def zero_m_mat vstack_def block2x2_def transpose_m_def
  gsl_matrix_add_def gsl_matrix_sub_def size1_def size2_def is_mat_def upt_3 upt_6 upt_12

subsection \<open>Sensors and the skew matrix\<close>

text \<open>
  C10. \<^verbatim>\<open>updateSensors\<close> stores the state vector with the mean motion
  \<open>1.144035952968e-3\<close> added to the entry of index 4; the other five entries and the
  field vector are stored as the sensors gave them, so what is stored is not the raw
  reading. No other field of the controller changes.
\<close>

theorem updateSensors_stores:
  "cntl_x (updateSensors
      \<lparr>getAngularPosition = (p0, p1, p2), getAngularVelocity = (w0, w1, w2),
       getMagneticField = (m0, m1, m2)\<rparr> cntl)
     = [p0, p1, p2, w0, w1 + 1144035952968 / 10 ^ 15, w2]
   \<and> cntl_b (updateSensors
      \<lparr>getAngularPosition = (p0, p1, p2), getAngularVelocity = (w0, w1, w2),
       getMagneticField = (m0, m1, m2)\<rparr> cntl)
     = [m0, m1, m2]
   \<and> cntl_x (updateSensors
      \<lparr>getAngularPosition = (p0, p1, p2), getAngularVelocity = (w0, w1, w2),
       getMagneticField = (m0, m1, m2)\<rparr> cntl)
     \<noteq> [p0, p1, p2, w0, w1, w2]
   \<and> updateSensors
      \<lparr>getAngularPosition = (p0, p1, p2), getAngularVelocity = (w0, w1, w2),
       getMagneticField = (m0, m1, m2)\<rparr> cntl
     = cntl\<lparr>cntl_x := [p0, p1, p2, w0, w1 + MEAN_MOTION, w2], cntl_b := [m0, m1, m2]\<rparr>"
  by (simp add: updateSensors_def MEAN_MOTION_def)

text \<open>
  C9. For every vector \<open>(b1, b2, b3)\<close> the skew matrix built by \<^verbatim>\<open>computeBMatrices\<close>
  equals the negative of its transpose, and its product with the vector is the zero
  vector.
\<close>

theorem bmat_skew:
  "transpose_m (bmat_of [b1, b2, b3]) = gsl_matrix_scale (bmat_of [b1, b2, b3]) (- 1)
   \<and> gsl_blas_dgemv 1 (bmat_of [b1, b2, b3]) [b1, b2, b3] 0 [0, 0, 0] = [0, 0, 0]"
  by (simp add: bmat_of_def gsl_vector_get_def transpose_m_def gsl_matrix_scale_def
      gsl_blas_dgemv_def mat_def size1_def size2_def upt_3)

subsection \<open>The gain\<close>

lemma computeGainMatrix_eq:
  assumes "wf_Controller cntl"
  shows "computeGainMatrix lu cntl =
    cntl\<lparr>cntl_K := mmul (invert lu (R_plus_BdT_P_Bd_of cntl)) (BdT_P_Ad_of cntl)\<rparr>"
proof -
  note wf = wf_ControllerD[OF assms]
  have Bt: "is_mat 3 6 (transpose_m (cntl_B_d cntl))"
    using wf by (simp add: is_mat_transpose_m)
  have a1: "mmul (transpose_m (cntl_B_d cntl)) (mmul (cntl_P cntl) (cntl_A_d cntl))
      = BdT_P_Ad_of cntl"
    unfolding BdT_P_Ad_of_def using Bt wf
    by (simp add: mmul_assoc[of 3 6 _ 6 _ 6])
  have a2: "mmul (transpose_m (cntl_B_d cntl)) (mmul (cntl_P cntl) (cntl_B_d cntl))
      = mmul (mmul (transpose_m (cntl_B_d cntl)) (cntl_P cntl)) (cntl_B_d cntl)"
    using Bt wf by (simp add: mmul_assoc[of 3 6 _ 6 _ 3])
  show ?thesis
    unfolding computeGainMatrix_def Let_def dgemm_beta_0 smult_1 op_m.simps gsl_matrix_memcpy_def
      a1 a2 R_plus_BdT_P_Bd_of_def ..
qed

text \<open>
  C6. For a controller of the allocated sizes, if \<open>R + B_d\<^sup>t P B_d\<close> is invertible and the
  LU kernel delivers its inverse, then \<^verbatim>\<open>computeGainMatrix\<close> stores in \<^verbatim>\<open>K\<close> the product
  of that inverse with \<open>B_d\<^sup>t P A_d\<close>; it is a \<open>3 \<times> 6\<close> matrix and solves
  \<open>(R + B_d\<^sup>t P B_d) K = B_d\<^sup>t P A_d\<close>.
\<close>

theorem computeGainMatrix_gain:
  assumes "wf_Controller cntl"
    and "inverse_of (R_plus_BdT_P_Bd_of cntl) (invert lu (R_plus_BdT_P_Bd_of cntl))"
  shows "cntl_K (computeGainMatrix lu cntl)
           = mmul (invert lu (R_plus_BdT_P_Bd_of cntl)) (BdT_P_Ad_of cntl)
         \<and> is_mat 3 6 (cntl_K (computeGainMatrix lu cntl))
         \<and> mmul (R_plus_BdT_P_Bd_of cntl) (cntl_K (computeGainMatrix lu cntl)) = BdT_P_Ad_of cntl"
proof -
  note wf = wf_ControllerD[OF assms(1)]
  let ?M = "R_plus_BdT_P_Bd_of cntl" and ?X = "BdT_P_Ad_of cntl"
  have M: "is_mat 3 3 ?M"
    unfolding R_plus_BdT_P_Bd_of_def using wf by (simp add: is_mat_add)
  have W: "is_mat 3 3 (invert lu ?M)"
    using M by (simp add: is_mat_invert)
  have Bt: "is_mat 3 6 (transpose_m (cntl_B_d cntl))"
    using wf by (simp add: is_mat_transpose_m)
  have X: "is_mat 3 6 ?X"
    unfolding BdT_P_Ad_of_def using wf Bt
    by (intro is_mat_mmul'[of _ 6]) simp_all
  have K: "cntl_K (computeGainMatrix lu cntl) = mmul (invert lu ?M) ?X"
    by (simp add: computeGainMatrix_eq[OF assms(1)])
  have "mmul ?M (mmul (invert lu ?M) ?X) = mmul (mmul ?M (invert lu ?M)) ?X"
    using M W X by (simp add: mmul_assoc[of 3 3 _ 3 _ 6])
  also have "\<dots> = mmul (identity_m 3) ?X"
    using assms(2) M by (simp add: inverse_of_def is_mat_size1)
  also have "\<dots> = ?X"
    using X by (simp add: mmul_identity_left)
  finally have "mmul ?M (mmul (invert lu ?M) ?X) = ?X" .
  moreover have "is_mat 3 6 (mmul (invert lu ?M) ?X)"
    using W X by (intro is_mat_mmul'[of _ 3]) simp_all
  ultimately show ?thesis using K by simp
qed

theorem computeGainMatrix_gain_witness:
  "wf_Controller example_cntl
   \<and> inverse_of (R_plus_BdT_P_Bd_of example_cntl) (invert band_lu (R_plus_BdT_P_Bd_of example_cntl))
   \<and> cntl_K (computeGainMatrix band_lu example_cntl)
       = [[1, 0, 0, 0, 0, 0], [0, 1, 0, 0, 0, 0], [0, 0, 1, 0, 0, 0]]"
proof -
  have wf: "wf_Controller example_cntl"
    by (rule wf_example_cntl)
  have M: "R_plus_BdT_P_Bd_of example_cntl = [[2, 0, 0], [0, 2, 0], [0, 0, 2]]"
    by (simp add: R_plus_BdT_P_Bd_of_def example_cntl_def eval_matrix)
  have W: "invert band_lu [[2, 0, 0], [0, 2, 0], [0, 0, 2]]
      = [[1 / 2, 0, 0], [0, 1 / 2, 0], [0, 0, 1 / 2]]"
    by (simp add: invert_def band_lu_def eval_matrix)
  have inv: "inverse_of (R_plus_BdT_P_Bd_of example_cntl)
      (invert band_lu (R_plus_BdT_P_Bd_of example_cntl))"
    unfolding M W by (simp add: inverse_of_def eval_matrix)
  have X: "BdT_P_Ad_of example_cntl = [[2, 0, 0, 0, 0, 0], [0, 2, 0, 0, 0, 0], [0, 0, 2, 0, 0, 0]]"
    by (simp add: BdT_P_Ad_of_def example_cntl_def eval_matrix)
  have "cntl_K (computeGainMatrix band_lu example_cntl)
      = mmul (invert band_lu (R_plus_BdT_P_Bd_of example_cntl)) (BdT_P_Ad_of example_cntl)"
    using computeGainMatrix_gain[OF wf inv] by simp
  also have "\<dots> = [[1, 0, 0, 0, 0, 0], [0, 1, 0, 0, 0, 0], [0, 0, 1, 0, 0, 0]]"
    unfolding M W X by (simp add: eval_matrix)
  finally show ?thesis
    using wf inv by simp
qed

subsection \<open>The input matrices\<close>

lemma ddot_self: "gsl_blas_ddot [b1, b2, b3] [b1, b2, b3] = (\<Sum>x\<leftarrow>[b1, b2, b3]. x * x)"
  by (simp add: gsl_blas_ddot_def upt_3)

lemma is_mat_bmat_of: "is_mat 3 3 (bmat_of bv)"
  by (simp add: bmat_of_def is_mat_def Let_def)

lemma identity_alloc: "0 < n \<Longrightarrow> gsl_matrix_set_identity (gsl_matrix_alloc n n) = identity_m n"
  by (simp add: gsl_matrix_set_identity_def gsl_matrix_alloc_def identity_m_def)

lemma computeBMatrices_first_transform:
  "bm_transform (computeBMatrices_first lu cntl) = transform_of lu cntl"
  "bm_J_inv (computeBMatrices_first lu cntl) = invert lu (cntl_J cntl)"
  by (simp_all add: computeBMatrices_first_def Let_def dgemm_beta_0 identity_alloc transform_of_def)

lemma computeBMatrices_eq:
  assumes wf: "wf_Controller cntl" and b: "cntl_b cntl = [b1, b2, b3]"
    and J: "is_mat 3 3 (bm_J_inv s)"
  shows "computeBMatrices lu (Some s) cntl =
     (Some s, cntl\<lparr>cntl_bmat := bmat_of [b1, b2, b3],
                    cntl_B_c := B_c_of (bm_J_inv s) [b1, b2, b3],
                    cntl_B_d := mmul (bm_transform s) (B_c_of (bm_J_inv s) [b1, b2, b3])\<rparr>)"
proof -
  note w = wf_ControllerD[OF wf]
  define d where "d = (\<Sum>x\<leftarrow>[b1, b2, b3]. x * x)"
  have dd: "gsl_blas_ddot [b1, b2, b3] [b1, b2, b3] = d"
    unfolding d_def by (rule ddot_self)
  let ?q = "smult (1 / d) (mmul (bmat_of [b1, b2, b3]) (bmat_of [b1, b2, b3]))"
  have q: "is_mat 3 3 ?q"
    by (intro is_mat_smult is_mat_mmul'[of _ 3]) (simp_all add: is_mat_bmat_of)
  have Jq: "is_mat 3 3 (mmul (bm_J_inv s) ?q)"
    using J q by (intro is_mat_mmul'[of _ 3]) simp_all
  have cv: "concatenate_vertical (zero_m 3 3) (mmul (bm_J_inv s) ?q) (cntl_B_c cntl)
      = vstack (zero_m 3 3) (mmul (bm_J_inv s) ?q)"
    using Jq w(7) by (intro concatenate_vertical_blocks[of 3 3 _ 3]) simp_all
  show ?thesis
    unfolding computeBMatrices_def B_c_of_def d_def[symmetric]
    by (simp add: Let_def b dd dgemm_beta_0 smult_1 w(13) cv)
qed



subsection \<open>The controller after initialisation\<close>

text \<open>
  The controller that \<^verbatim>\<open>initializeController\<close> builds has the allocated sizes and the
  helper matrices, whenever the exponential of a \<open>6 \<times> 6\<close> matrix is a \<open>6 \<times> 6\<close> matrix, and
  \<^verbatim>\<open>updateSensors\<close> keeps them.
\<close>

lemma zero_alloc: "0 < n \<Longrightarrow> gsl_matrix_set_zero (gsl_matrix_alloc n m) = zero_m n m"
  by (simp add: gsl_matrix_set_zero_def gsl_matrix_alloc_def zero_m_mat)

lemma wf_initializeController:
  assumes "\<And>m. is_mat 6 6 m \<Longrightarrow> is_mat 6 6 (expm m)"
  shows "wf_Controller (initializeController expm)"
proof -
  have lit: "is_mat 6 6 [[a0, a1, a2, a3, a4, a5], [b0, b1, b2, b3, b4, b5],
      [c0, c1, c2, c3, c4, c5], [d0, d1, d2, d3, d4, d5], [e0, e1, e2, e3, e4, e5],
      [f0, f1, f2, f3, f4, f5]]"
    for a0 a1 a2 a3 a4 a5 b0 b1 b2 b3 b4 b5 c0 c1 c2 c3 c4 c5 d0 d1 d2 d3 d4 d5
      e0 e1 e2 e3 e4 e5 f0 f1 f2 f3 f4 f5 :: real
    by (simp add: is_mat_def)
  have lit3: "is_mat 3 3 [[a0, a1, a2], [b0, b1, b2], [c0, c1, c2]]"
    for a0 a1 a2 b0 b1 b2 c0 c1 c2 :: real
    by (simp add: is_mat_def)
  have sc: "is_mat 6 6 (gsl_matrix_scale a c)" if "is_mat 6 6 a" for a c
    using that by (simp add: gsl_matrix_scale_def is_mat_size1 is_mat_size2)
  show ?thesis
    unfolding initializeController_def Let_def wf_Controller_def
    by (simp add: lit lit3 assms sc gsl_matrix_memcpy_def identity_alloc zero_alloc
        gsl_vector_alloc_def)
qed

lemma wf_updateSensors: "wf_Controller cntl \<Longrightarrow> wf_Controller (updateSensors s cntl)"
  by (simp add: updateSensors_def wf_Controller_def split: prod.split)

subsection \<open>The Newton iteration\<close>

lemma converged_from_iff:
  "converged_from S Sp i j \<longleftrightarrow>
     (\<forall>i' j'. (i' = i \<and> j \<le> j' \<or> i < i') \<and> i' < 12 \<and> j' < 12
        \<longrightarrow> \<bar>S ! i' ! j' - Sp ! i' ! j'\<bar> \<le> NR_TOLERANCE)"
proof (induction S Sp i j rule: converged_from.induct)
  case (1 S Sp i j)
  let ?ok = "\<lambda>i' j'. \<bar>S ! i' ! j' - Sp ! i' ! j'\<bar> \<le> NR_TOLERANCE"
  show ?case
  proof (cases "i < 12")
    case False
    have "converged_from S Sp i j"
      using False by (subst converged_from.simps) simp
    moreover have "\<not> ((i' = i \<and> j \<le> j' \<or> i < i') \<and> i' < 12 \<and> j' < 12)" for i' j'
      using False by arith
    ultimately show ?thesis by blast
  next
    case i: True
    show ?thesis
    proof (cases "j < 12")
      case False
      have idx: "((i' = i + 1 \<and> 0 \<le> j' \<or> i + 1 < i') \<and> i' < 12 \<and> j' < 12)
          = ((i' = i \<and> j \<le> j' \<or> i < i') \<and> i' < 12 \<and> j' < 12)" for i' j'
        using False by arith
      have "converged_from S Sp i j = converged_from S Sp (i + 1) 0"
        using i False by (subst converged_from.simps) simp
      also have "\<dots> \<longleftrightarrow> (\<forall>i' j'. (i' = i + 1 \<and> 0 \<le> j' \<or> i + 1 < i') \<and> i' < 12 \<and> j' < 12
        \<longrightarrow> ?ok i' j')"
        using 1(2)[OF i False] .
      finally show ?thesis
        by (simp only: idx)
    next
      case j: True
      have idx: "((i' = i \<and> j \<le> j' \<or> i < i') \<and> i' < 12 \<and> j' < 12)
          = (i' = i \<and> j' = j \<or> (i' = i \<and> j + 1 \<le> j' \<or> i < i') \<and> i' < 12 \<and> j' < 12)"
        for i' j'
        using i j by arith
      show ?thesis
      proof (cases "\<bar>gsl_matrix_get S i j - gsl_matrix_get Sp i j\<bar> > NR_TOLERANCE")
        case True
        then have "\<not> converged_from S Sp i j"
          using i j by (subst converged_from.simps) simp
        moreover have "\<not> ?ok i j"
          using True by (simp add: gsl_matrix_get_def)
        ultimately show ?thesis
          unfolding idx by blast
      next
        case False
        then have here: "?ok i j"
          by (simp add: gsl_matrix_get_def)
        have "converged_from S Sp i j = converged_from S Sp i (j + 1)"
          using i j False by (subst converged_from.simps) simp
        also have "\<dots> \<longleftrightarrow> (\<forall>i' j'. (i' = i \<and> j + 1 \<le> j' \<or> i < i') \<and> i' < 12 \<and> j' < 12
          \<longrightarrow> ?ok i' j')"
          using 1(1)[OF i j False] .
        finally show ?thesis
          unfolding idx using here by blast
      qed
    qed
  qed
qed

lemma newtonRaphsonConverged_iff:
  "newtonRaphsonConverged S S_prev \<longleftrightarrow> within_tolerance S S_prev"
  unfolding newtonRaphsonConverged_def converged_from_iff within_tolerance_def NR_TOLERANCE_def
  by auto

lemma newton_body_eq: "newton_body lu H2 S = (newton_step lu H2 S, S)"
  by (simp add: newton_step_def newton_body_def Let_def gsl_matrix_memcpy_def)

lemma newton_loop_continue:
  "\<not> newtonRaphsonConverged (newton_step lu H2 S) S
   \<Longrightarrow> newton_loop lu H2 S = newton_loop lu H2 (newton_step lu H2 S)"
  by (subst newton_loop.simps) (simp add: newton_body_eq)

lemma newton_loop_stop:
  "newtonRaphsonConverged (newton_step lu H2 S) S
   \<Longrightarrow> newton_loop lu H2 S = Some (newton_step lu H2 S)"
  by (subst newton_loop.simps) (simp add: newton_body_eq)

lemma funpow_step_shift: "(f ^^ k) (f x) = (f ^^ Suc k) x"
  by (simp add: funpow_swap1)

lemma newton_loop_runs:
  "(\<And>j. j < k \<Longrightarrow> \<not> newtonRaphsonConverged ((newton_step lu H2 ^^ Suc j) S) ((newton_step lu H2 ^^ j) S))
   \<Longrightarrow> newton_loop lu H2 S = newton_loop lu H2 ((newton_step lu H2 ^^ k) S)"
proof (induction k arbitrary: S)
  case 0
  show ?case by simp
next
  case (Suc k)
  have first: "\<not> newtonRaphsonConverged (newton_step lu H2 S) S"
    using Suc.prems[of 0] by simp
  have rest: "\<not> newtonRaphsonConverged ((newton_step lu H2 ^^ Suc j) (newton_step lu H2 S))
      ((newton_step lu H2 ^^ j) (newton_step lu H2 S))" if "j < k" for j
    using Suc.prems[of "Suc j"] that by (simp only: funpow_step_shift) simp
  have "newton_loop lu H2 S = newton_loop lu H2 (newton_step lu H2 S)"
    using first by (rule newton_loop_continue)
  also have "\<dots> = newton_loop lu H2 ((newton_step lu H2 ^^ k) (newton_step lu H2 S))"
    using rest by (rule Suc.IH)
  finally show ?case by (simp only: funpow_step_shift)
qed

lemma newton_loop_Some:
  assumes "newton_loop lu H2 S = Some y"
  shows "\<exists>k. y = (newton_step lu H2 ^^ Suc k) S
        \<and> newtonRaphsonConverged ((newton_step lu H2 ^^ Suc k) S) ((newton_step lu H2 ^^ k) S)
        \<and> (\<forall>j<k. \<not> newtonRaphsonConverged ((newton_step lu H2 ^^ Suc j) S) ((newton_step lu H2 ^^ j) S))"
proof -
  let ?P = "\<lambda>lu H2 S y. \<exists>k. y = (newton_step lu H2 ^^ Suc k) S
        \<and> newtonRaphsonConverged ((newton_step lu H2 ^^ Suc k) S) ((newton_step lu H2 ^^ k) S)
        \<and> (\<forall>j<k. \<not> newtonRaphsonConverged ((newton_step lu H2 ^^ Suc j) S) ((newton_step lu H2 ^^ j) S))"
  show "?P lu H2 S y"
  proof (rule newton_loop.raw_induct[of ?P, OF _ assms])
    fix loop lu H2 S y
    assume IH: "\<And>lu H2 S y. loop lu H2 S = Some y \<Longrightarrow> ?P lu H2 S y"
      and body: "(case newton_body lu H2 S of
                    (S', S_prev) \<Rightarrow>
                      if \<not> newtonRaphsonConverged S' S_prev then loop lu H2 S' else Some S')
                 = Some y"
    show "?P lu H2 S y"
    proof (cases "newtonRaphsonConverged (newton_step lu H2 S) S")
      case True
      then have "y = newton_step lu H2 S"
        using body by (simp add: newton_body_eq)
      then show ?thesis
        using True by (intro exI[of _ 0]) simp
    next
      case False
      then have next_run: "loop lu H2 (newton_step lu H2 S) = Some y"
        using body by (simp add: newton_body_eq)
      obtain k where k:
        "y = (newton_step lu H2 ^^ Suc k) (newton_step lu H2 S)"
        "newtonRaphsonConverged ((newton_step lu H2 ^^ Suc k) (newton_step lu H2 S))
           ((newton_step lu H2 ^^ k) (newton_step lu H2 S))"
        "\<forall>j<k. \<not> newtonRaphsonConverged ((newton_step lu H2 ^^ Suc j) (newton_step lu H2 S))
           ((newton_step lu H2 ^^ j) (newton_step lu H2 S))"
        using IH[OF next_run] by blast
      have "\<not> newtonRaphsonConverged ((newton_step lu H2 ^^ Suc j) S) ((newton_step lu H2 ^^ j) S)"
        if "j < Suc k" for j
      proof (cases j)
        case 0
        then show ?thesis using False by simp
      next
        case (Suc j')
        then show ?thesis
          using k(3) that by (simp only: funpow_step_shift[symmetric]) simp
      qed
      then show ?thesis
        using k(1,2) by (intro exI[of _ "Suc k"]) (simp only: funpow_step_shift, blast)
    qed
  qed
qed

lemma newton_step_eq:
  assumes "is_mat 12 12 S" "is_mat 12 12 H2"
  shows "newton_step lu H2 S = smult (1 / 2) (gsl_matrix_add S (mmul (invert lu S) H2))"
proof -
  have sz: "size1 S = 12" "size2 S = 12" "size1 H2 = 12" "size2 H2 = 12"
    using assms by (simp_all add: is_mat_size1 is_mat_size2)
  have W: "is_mat 12 12 (invert lu S)"
    using assms by (simp add: is_mat_invert)
  have szW: "size1 (invert lu S) = 12" "size2 (invert lu S) = 12"
    using W by (simp_all add: is_mat_size1 is_mat_size2)
  have "newton_step lu H2 S =
      mat 12 12 (\<lambda>i j. 1 / 2 * (\<Sum>k\<leftarrow>[0..<12]. invert lu S ! i ! k * H2 ! k ! j) + 1 / 2 * S ! i ! j)"
    by (simp add: newton_step_def newton_body_def Let_def gsl_blas_dgemm_def szW sz)
  also have "\<dots> = smult (1 / 2) (gsl_matrix_add S (mmul (invert lu S) H2))"
    unfolding gsl_matrix_add_def mmul_def sz szW smult_mat
    by (rule mat_cong) (simp add: algebra_simps)
  finally show ?thesis .
qed

lemma is_mat_newton_step:
  assumes "is_mat 12 12 S" "is_mat 12 12 H2"
  shows "is_mat 12 12 (newton_step lu H2 S)"
  unfolding newton_step_eq[OF assms]
  using assms by (intro is_mat_smult is_mat_add) simp_all

lemma newton_iterates:
  assumes "is_mat 12 12 H"
  shows "(newton_step lu (mmul H H) ^^ k) (identity_m 12) = newton_seq lu H k
         \<and> is_mat 12 12 (newton_seq lu H k)"
proof (induction k)
  case 0
  show ?case by simp
next
  case (Suc k)
  have H2: "is_mat 12 12 (mmul H H)"
    using assms by (intro is_mat_mmul'[of _ 12]) simp_all
  have "(newton_step lu (mmul H H) ^^ Suc k) (identity_m 12)
      = newton_step lu (mmul H H) (newton_seq lu H k)"
    using Suc by simp
  also have "\<dots> = newton_seq lu H (Suc k)"
    using Suc H2 by (simp add: newton_step_eq)
  finally have "(newton_step lu (mmul H H) ^^ Suc k) (identity_m 12) = newton_seq lu H (Suc k)" .
  moreover have "is_mat 12 12 (newton_step lu (mmul H H) (newton_seq lu H k))"
    using Suc H2 by (intro is_mat_newton_step) simp_all
  ultimately show ?case
    using Suc H2 by (simp add: newton_step_eq)
qed

lemma runNewtonRaphsonProcess_eq:
  assumes "is_mat 12 12 S"
  shows "runNewtonRaphsonProcess lu H S = newton_loop lu (mmul H H) (identity_m 12)"
  using assms
  by (simp add: runNewtonRaphsonProcess_def Let_def dgemm_beta_0 smult_1
      gsl_matrix_set_identity_def identity_m_def is_mat_size1 is_mat_size2)

lemma runNewton_stops:
  assumes "is_mat 12 12 H" and "is_mat 12 12 S"
    and "within_tolerance (newton_seq lu H (Suc k)) (newton_seq lu H k)"
    and "\<And>j. j < k \<Longrightarrow> \<not> within_tolerance (newton_seq lu H (Suc j)) (newton_seq lu H j)"
  shows "runNewtonRaphsonProcess lu H S = Some (newton_seq lu H (Suc k))"
proof -
  let ?f = "newton_step lu (mmul H H)"
  have it: "(?f ^^ n) (identity_m 12) = newton_seq lu H n" for n
    using newton_iterates[OF assms(1)] by blast
  have stepk: "?f (newton_seq lu H n) = newton_seq lu H (Suc n)" for n
    using it[of "Suc n"] it[of n] by (simp del: newton_seq.simps)
  have "newton_loop lu (mmul H H) (identity_m 12)
      = newton_loop lu (mmul H H) ((?f ^^ k) (identity_m 12))"
    using assms(4) by (intro newton_loop_runs) (simp only: it newtonRaphsonConverged_iff, blast)
  also have "\<dots> = Some (?f ((?f ^^ k) (identity_m 12)))"
    using assms(3) by (intro newton_loop_stop) (simp only: it stepk newtonRaphsonConverged_iff)
  also have "?f ((?f ^^ k) (identity_m 12)) = newton_seq lu H (Suc k)"
    by (simp only: it stepk)
  finally show ?thesis
    by (simp only: runNewtonRaphsonProcess_eq[OF assms(2)])
qed

lemma runNewton_Some:
  assumes "is_mat 12 12 H" and "is_mat 12 12 S"
    and "runNewtonRaphsonProcess lu H S = Some y"
  shows "\<exists>k. y = newton_seq lu H (Suc k)
           \<and> within_tolerance (newton_seq lu H (Suc k)) (newton_seq lu H k)
           \<and> (\<forall>j<k. \<not> within_tolerance (newton_seq lu H (Suc j)) (newton_seq lu H j))"
proof -
  let ?f = "newton_step lu (mmul H H)"
  have it: "(?f ^^ n) (identity_m 12) = newton_seq lu H n" for n
    using newton_iterates[OF assms(1)] by blast
  have "newton_loop lu (mmul H H) (identity_m 12) = Some y"
    using assms(3) by (simp only: runNewtonRaphsonProcess_eq[OF assms(2)])
  from newton_loop_Some[OF this] show ?thesis
    by (simp only: it newtonRaphsonConverged_iff)
qed

lemma runNewton_diverges:
  assumes "is_mat 12 12 H" and "is_mat 12 12 S"
    and "\<And>k. \<not> within_tolerance (newton_seq lu H (Suc k)) (newton_seq lu H k)"
  shows "runNewtonRaphsonProcess lu H S = None"
proof (cases "runNewtonRaphsonProcess lu H S")
  case None
  then show ?thesis .
next
  case (Some y)
  from runNewton_Some[OF assms(1,2) Some] assms(3) show ?thesis
    by blast
qed

lemma is_mat_scalar_m [simp]: "is_mat 12 12 (scalar_m c)"
  by (simp add: scalar_m_def)

lemma identity_scalar: "identity_m 12 = scalar_m 1"
  by (simp add: identity_m_def scalar_m_def)

lemma scalar_m_nth: "i < 12 \<Longrightarrow> j < 12 \<Longrightarrow> scalar_m c ! i ! j = (if i = j then c else 0)"
  by (simp add: scalar_m_def)

lemma within_tolerance_scalar:
  "within_tolerance (scalar_m a) (scalar_m b) \<longleftrightarrow> \<bar>a - b\<bar> \<le> 1 / 1000"
proof
  assume "within_tolerance (scalar_m a) (scalar_m b)"
  then have "\<bar>scalar_m a ! 0 ! 0 - scalar_m b ! 0 ! 0\<bar> \<le> 1 / 1000"
    unfolding within_tolerance_def by simp
  then show "\<bar>a - b\<bar> \<le> 1 / 1000"
    by (simp add: scalar_m_nth)
next
  assume "\<bar>a - b\<bar> \<le> 1 / 1000"
  then show "within_tolerance (scalar_m a) (scalar_m b)"
    unfolding within_tolerance_def by (simp add: scalar_m_nth)
qed

lemma newton_seq_scalar_step:
  "smult (1 / 2) (gsl_matrix_add (scalar_m s) (mmul (scalar_m w) (scalar_m c)))
     = scalar_m ((s + w * c) / 2)"
proof -
  have sz: "size1 (scalar_m x) = 12" "size2 (scalar_m x) = 12" for x
    by (simp_all add: scalar_m_def)
  have prod: "(\<Sum>k<12. scalar_m w ! i ! k * scalar_m c ! k ! j) = (if i = j then w * c else 0)"
    if "i < 12" "j < 12" for i j :: nat
  proof -
    have "(\<Sum>k<12. scalar_m w ! i ! k * scalar_m c ! k ! j)
        = (\<Sum>k<12. if k = i then w * (if i = j then c else 0) else 0)"
      using that by (intro sum.cong) (auto simp: scalar_m_nth)
    also have "\<dots> = w * (if i = j then c else 0)"
      using that by simp
    finally show ?thesis by simp
  qed
  show ?thesis
    unfolding gsl_matrix_add_def mmul_def sz smult_mat sum_list_upt
    unfolding scalar_m_def[of "(s + w * c) / 2"]
  proof (rule mat_cong)
    fix i j :: nat
    assume ij: "i < 12" "j < 12"
    have e: "mat 12 12 (\<lambda>i j. \<Sum>k<12. scalar_m w ! i ! k * scalar_m c ! k ! j) ! i ! j
        = (if i = j then w * c else 0)"
      using ij by (simp only: mat_nth prod)
    show "1 / 2 * (scalar_m s ! i ! j
            + mat 12 12 (\<lambda>i j. \<Sum>k<12. scalar_m w ! i ! k * scalar_m c ! k ! j) ! i ! j)
          = (if i = j then (s + w * c) / 2 else 0)"
      unfolding e using ij by (simp add: scalar_m_nth)
  qed
qed

lemma newton_seq_scalar:
  assumes "mmul H H = scalar_m c"
    and "\<And>j. j < k \<Longrightarrow> invert lu (scalar_m (newton_scalar c j)) = scalar_m (1 / newton_scalar c j)"
  shows "newton_seq lu H k = scalar_m (newton_scalar c k)"
  using assms(2)
proof (induction k)
  case 0
  show ?case by (simp add: identity_scalar)
next
  case (Suc k)
  have "newton_seq lu H k = scalar_m (newton_scalar c k)"
    using Suc by simp
  then show ?case
    using Suc.prems[of k] by (simp add: assms(1) newton_seq_scalar_step)
qed

lemma invert_band_lu_scalar:
  assumes "s \<noteq> 0"
  shows "invert band_lu (scalar_m s) = scalar_m (1 / s)"
proof -
  have sz: "size1 (scalar_m s) = 12" "size2 (scalar_m s) = 12"
    by (simp_all add: scalar_m_def)
  have "\<not> list_ex (\<lambda>i. scalar_m s ! i ! i = 0) [0..<12]"
    using assms by (simp add: list_ex_iff scalar_m_nth)
  then have "invert band_lu (scalar_m s) =
      mat 12 12 (\<lambda>i j. if i = j then 1 / (scalar_m s ! i ! i)
                      else if j = i + 6 \<and> j < size2 (scalar_m s)
                           then - (scalar_m s ! i ! j) / (scalar_m s ! i ! i * scalar_m s ! j ! j)
                           else 0)"
    by (simp add: invert_def band_lu_def sz)
  also have "\<dots> = scalar_m (1 / s)"
    unfolding scalar_m_def[of "1 / s"]
    by (rule mat_cong) (simp add: scalar_m_nth)
  finally show ?thesis .
qed

lemma mmul_scalar_scalar: "mmul (scalar_m a) (scalar_m b) = scalar_m (a * b)"
proof -
  have sz: "size1 (scalar_m x) = 12" "size2 (scalar_m x) = 12" for x
    by (simp_all add: scalar_m_def)
  show ?thesis
    unfolding mmul_def sz sum_list_upt scalar_m_def[of "a * b"]
  proof (rule mat_cong)
    fix i j :: nat
    assume ij: "i < 12" "j < 12"
    have "(\<Sum>k<12. scalar_m a ! i ! k * scalar_m b ! k ! j)
        = (\<Sum>k<12. if k = i then a * (if i = j then b else 0) else 0)"
      using ij by (intro sum.cong) (auto simp: scalar_m_nth)
    also have "\<dots> = a * (if i = j then b else 0)"
      using ij by simp
    finally show "(\<Sum>k<12. scalar_m a ! i ! k * scalar_m b ! k ! j) = (if i = j then a * b else 0)"
      by simp
  qed
qed

lemma newton_scalar_9:
  "newton_scalar 9 0 = 1" "newton_scalar 9 1 = 5" "newton_scalar 9 2 = 17 / 5"
  "newton_scalar 9 3 = 257 / 85" "newton_scalar 9 4 = 65537 / 21845"
  "newton_scalar 9 5 = 4294967297 / 1431655765"
  by (simp_all add: eval_nat_numeral)

lemma newton_scalar_osc: "newton_scalar (- 3) k = (if even k then 1 else - 1)"
  by (induction k) simp_all

lemma oscillating_H_squared: "mmul oscillating_H oscillating_H = scalar_m (- 3)"
  by (simp add: oscillating_H_def scalar_m_def eval_matrix)

lemma is_mat_oscillating_H: "is_mat 12 12 oscillating_H"
  by (simp add: oscillating_H_def)

lemma runNewton_still_running:
  assumes "is_mat 12 12 H" and "is_mat 12 12 S"
    and "\<And>j. j < k \<Longrightarrow> \<not> newtonRaphsonConverged (newton_seq lu H (Suc j)) (newton_seq lu H j)"
  shows "runNewtonRaphsonProcess lu H S = newton_loop lu (mmul H H) (newton_seq lu H k)"
proof -
  let ?f = "newton_step lu (mmul H H)"
  have it: "(?f ^^ n) (identity_m 12) = newton_seq lu H n" for n
    using newton_iterates[OF assms(1)] by blast
  have "newton_loop lu (mmul H H) (identity_m 12)
      = newton_loop lu (mmul H H) ((?f ^^ k) (identity_m 12))"
    using assms(3) by (intro newton_loop_runs) (simp only: it, blast)
  then show ?thesis
    by (simp only: runNewtonRaphsonProcess_eq[OF assms(2)] it)
qed

lemma oscillating_H_diverges:
  assumes "is_mat 12 12 S"
    and "invert lu (scalar_m 1) = scalar_m 1" and "invert lu (scalar_m (- 1)) = scalar_m (- 1)"
  shows "runNewtonRaphsonProcess lu oscillating_H S = None"
proof (rule runNewton_diverges[OF is_mat_oscillating_H assms(1)])
  fix k
  have inv: "invert lu (scalar_m (newton_scalar (- 3) j)) = scalar_m (1 / newton_scalar (- 3) j)"
    for j
    using assms(2,3) by (simp add: newton_scalar_osc)
  have seq: "newton_seq lu oscillating_H n = scalar_m (newton_scalar (- 3) n)" for n
    by (intro newton_seq_scalar oscillating_H_squared inv)
  show "\<not> within_tolerance (newton_seq lu oscillating_H (Suc k)) (newton_seq lu oscillating_H k)"
    unfolding seq within_tolerance_scalar newton_scalar_osc by simp
qed

text \<open>
  C3. For a \<open>12 \<times> 12\<close> matrix \<open>H\<close> and whatever the matrix \<open>S\<close> held before the call,
  \<^verbatim>\<open>runNewtonRaphsonProcess\<close> runs the sequence \<open>S\<^sub>0 = I\<close>,
  \<open>S\<^sub>k\<^sub>+\<^sub>1 = (S\<^sub>k + S\<^sub>k\<^sup>-\<^sup>1 H\<^sup>2) / 2\<close>: the test \<^verbatim>\<open>newtonRaphsonConverged\<close> holds exactly when
  every one of the 144 entries of the difference is within \<open>1e-3\<close> in absolute value; the
  call returns \<open>S\<^sub>k\<^sub>+\<^sub>1\<close> for the first \<open>k\<close> at which the test holds for \<open>S\<^sub>k\<^sub>+\<^sub>1\<close> and
  \<open>S\<^sub>k\<close>, and it does not return when the test holds for no \<open>k\<close>.
\<close>

theorem runNewtonRaphsonProcess_iteration:
  assumes "is_mat 12 12 H" and "is_mat 12 12 S"
  shows "(newtonRaphsonConverged X Y \<longleftrightarrow> within_tolerance X Y)
     \<and> (\<forall>k. within_tolerance (newton_seq lu H (Suc k)) (newton_seq lu H k)
             \<and> (\<forall>j<k. \<not> within_tolerance (newton_seq lu H (Suc j)) (newton_seq lu H j))
            \<longrightarrow> runNewtonRaphsonProcess lu H S = Some (newton_seq lu H (Suc k)))
     \<and> ((\<forall>k. \<not> within_tolerance (newton_seq lu H (Suc k)) (newton_seq lu H k))
            \<longrightarrow> runNewtonRaphsonProcess lu H S = None)"
  using runNewton_stops[OF assms] runNewton_diverges[OF assms]
  by (simp add: newtonRaphsonConverged_iff del: newton_seq.simps)

theorem runNewtonRaphsonProcess_iteration_witness:
  "is_mat 12 12 (scalar_m 3) \<and> is_mat 12 12 (zero_m 12 12)
   \<and> runNewtonRaphsonProcess band_lu (scalar_m 3) (zero_m 12 12)
       = Some (scalar_m (4294967297 / 1431655765))
   \<and> newton_seq band_lu (scalar_m 3) 4 = scalar_m (65537 / 21845)
   \<and> \<not> newtonRaphsonConverged (scalar_m (65537 / 21845)) (scalar_m (257 / 85))
   \<and> newtonRaphsonConverged (scalar_m (4294967297 / 1431655765)) (scalar_m (65537 / 21845))"
proof -
  have H2: "mmul (scalar_m 3) (scalar_m 3) = scalar_m 9"
    by (simp add: mmul_scalar_scalar)
  have nz: "newton_scalar 9 j \<noteq> 0" if "j < 5" for j
  proof -
    from that have "j = 0 \<or> j = 1 \<or> j = 2 \<or> j = 3 \<or> j = 4" by arith
    then show ?thesis by (auto simp: newton_scalar_9)
  qed
  have seq: "newton_seq band_lu (scalar_m 3) k = scalar_m (newton_scalar 9 k)" if "k \<le> 5" for k
    using that by (intro newton_seq_scalar H2 invert_band_lu_scalar nz) simp
  have seqs: "newton_seq band_lu (scalar_m 3) (Suc 4) = scalar_m (4294967297 / 1431655765)"
    "newton_seq band_lu (scalar_m 3) 4 = scalar_m (65537 / 21845)"
    using seq[of 5] seq[of 4] by (simp_all add: newton_scalar_9 del: newton_seq.simps)
  have last: "within_tolerance (newton_seq band_lu (scalar_m 3) (Suc 4)) (newton_seq band_lu (scalar_m 3) 4)"
    unfolding seqs by (simp add: within_tolerance_scalar)
  have before: "\<not> within_tolerance (newton_seq band_lu (scalar_m 3) (Suc j)) (newton_seq band_lu (scalar_m 3) j)"
    if "j < 4" for j
  proof -
    from that have "j = 0 \<or> j = 1 \<or> j = 2 \<or> j = 3" by arith
    then show ?thesis
      using seq[of 0] seq[of 1] seq[of 2] seq[of 3] seq[of 4]
      by (auto simp: newton_scalar_9 within_tolerance_scalar eval_nat_numeral simp del: newton_seq.simps)
  qed
  have dims: "is_mat 12 12 (scalar_m 3)" "is_mat 12 12 (zero_m 12 12)"
    by simp_all
  have "runNewtonRaphsonProcess band_lu (scalar_m 3) (zero_m 12 12)
      = Some (newton_seq band_lu (scalar_m 3) (Suc 4))"
    using runNewtonRaphsonProcess_iteration[OF dims, of _ _ band_lu] last before by blast
  moreover have "\<not> newtonRaphsonConverged (scalar_m (65537 / 21845)) (scalar_m (257 / 85))"
    "newtonRaphsonConverged (scalar_m (4294967297 / 1431655765)) (scalar_m (65537 / 21845))"
    by (simp_all add: newtonRaphsonConverged_iff within_tolerance_scalar)
  ultimately show ?thesis
    using dims seqs by simp
qed

text \<open>
  C4. The loop of \<^verbatim>\<open>runNewtonRaphsonProcess\<close> has no bound on its iterations: after any
  number \<open>k\<close> of failed convergence tests the call is still in the loop, at \<open>S\<^sub>k\<close>; when it
  returns, the test has passed at the last step; and there is an input, the matrix
  \<open>oscillating_H\<close>, for which a kernel that inverts \<open>I\<close> and \<open>- I\<close> never leaves the loop,
  so the call returns nothing, neither a matrix nor an error.
\<close>

theorem newton_loop_unbounded:
  assumes "is_mat 12 12 H" and "is_mat 12 12 S"
  shows "(\<forall>k. (\<forall>j<k. \<not> newtonRaphsonConverged (newton_seq lu H (Suc j)) (newton_seq lu H j))
            \<longrightarrow> runNewtonRaphsonProcess lu H S = newton_loop lu (mmul H H) (newton_seq lu H k))
     \<and> (\<forall>y. runNewtonRaphsonProcess lu H S = Some y
            \<longrightarrow> (\<exists>k. y = newton_seq lu H (Suc k)
                     \<and> newtonRaphsonConverged (newton_seq lu H (Suc k)) (newton_seq lu H k)))
     \<and> (invert lu (scalar_m 1) = scalar_m 1 \<and> invert lu (scalar_m (- 1)) = scalar_m (- 1)
          \<longrightarrow> runNewtonRaphsonProcess lu oscillating_H S = None)"
proof (intro conjI allI impI)
  fix k
  assume "\<forall>j<k. \<not> newtonRaphsonConverged (newton_seq lu H (Suc j)) (newton_seq lu H j)"
  then show "runNewtonRaphsonProcess lu H S = newton_loop lu (mmul H H) (newton_seq lu H k)"
    by (intro runNewton_still_running assms) blast
next
  fix y
  assume "runNewtonRaphsonProcess lu H S = Some y"
  from runNewton_Some[OF assms this]
  show "\<exists>k. y = newton_seq lu H (Suc k)
          \<and> newtonRaphsonConverged (newton_seq lu H (Suc k)) (newton_seq lu H k)"
    unfolding newtonRaphsonConverged_iff by blast
next
  assume "invert lu (scalar_m 1) = scalar_m 1 \<and> invert lu (scalar_m (- 1)) = scalar_m (- 1)"
  then show "runNewtonRaphsonProcess lu oscillating_H S = None"
    by (intro oscillating_H_diverges assms) simp_all
qed

theorem newton_loop_unbounded_witness:
  "is_mat 12 12 oscillating_H \<and> is_mat 12 12 (zero_m 12 12)
   \<and> invert band_lu (scalar_m 1) = scalar_m 1 \<and> invert band_lu (scalar_m (- 1)) = scalar_m (- 1)
   \<and> runNewtonRaphsonProcess band_lu oscillating_H (zero_m 12 12) = None"
proof -
  have dims: "is_mat 12 12 oscillating_H" "is_mat 12 12 (zero_m 12 12)"
    by (simp_all add: is_mat_oscillating_H)
  have inv: "invert band_lu (scalar_m 1) = scalar_m 1"
    "invert band_lu (scalar_m (- 1)) = scalar_m (- 1)"
    by (simp_all add: invert_band_lu_scalar)
  show ?thesis
    using newton_loop_unbounded[OF dims, of band_lu] dims inv by blast
qed


subsection \<open>The Riccati solver\<close>

lemma scale_smult:
  assumes "is_mat n m a" "0 < n"
  shows "gsl_matrix_scale a c = smult c a"
proof -
  have "smult c a = smult c (mat n m (\<lambda>i j. a ! i ! j))"
    using assms by (simp add: mat_eta)
  also have "\<dots> = gsl_matrix_scale a c"
    using assms by (simp add: smult_mat gsl_matrix_scale_def is_mat_size1 is_mat_size2 mult.commute)
  finally show ?thesis by simp
qed

lemma submatrix_top_left:
  assumes "is_mat 12 12 D"
  shows "gsl_matrix_submatrix D 0 0 6 6 = map (take 6) (take 6 D)"
proof (rule is_mat_eqI[of 6 6])
  show "is_mat 6 6 (gsl_matrix_submatrix D 0 0 6 6)"
    by (simp add: gsl_matrix_submatrix_def)
  show "is_mat 6 6 (map (take 6) (take 6 D))"
    using assms by (auto simp: is_mat_def list_all_iff dest!: in_set_takeD)
  fix i j :: nat assume "i < 6" "j < 6"
  then show "gsl_matrix_submatrix D 0 0 6 6 ! i ! j = map (take 6) (take 6 D) ! i ! j"
    using assms by (simp add: gsl_matrix_submatrix_def is_mat_def)
qed

lemma submatrix_bottom_left:
  assumes "is_mat 12 12 D"
  shows "gsl_matrix_submatrix D 6 0 6 6 = map (take 6) (drop 6 D)"
proof (rule is_mat_eqI[of 6 6])
  show "is_mat 6 6 (gsl_matrix_submatrix D 6 0 6 6)"
    by (simp add: gsl_matrix_submatrix_def)
  show "is_mat 6 6 (map (take 6) (drop 6 D))"
    using assms by (auto simp: is_mat_def list_all_iff dest!: in_set_dropD)
  fix i j :: nat assume "i < 6" "j < 6"
  then show "gsl_matrix_submatrix D 6 0 6 6 ! i ! j = map (take 6) (drop 6 D) ! i ! j"
    using assms by (simp add: gsl_matrix_submatrix_def is_mat_def)
qed

lemma is_mat_N_of:
  assumes "wf_Controller cntl"
  shows "is_mat 12 12 (N_of cntl)"
proof -
  note w = wf_ControllerD[OF assms]
  have "is_mat (6 + 6) (6 + 6) (N_of cntl)"
    unfolding N_of_def using w by (intro is_mat_block2x2 is_mat_smult) simp_all
  then show ?thesis by simp
qed

lemma computePMatrix_first_eq:
  assumes "wf_Controller cntl"
  shows "pm_N (computePMatrix_first lu cntl) = N_of cntl"
    and "pm_R_inverse (computePMatrix_first lu cntl) = invert lu (cntl_R cntl)"
    and "pm_A_d_transpose (computePMatrix_first lu cntl) = transpose_m (cntl_A_d cntl)"
proof -
  note w = wf_ControllerD[OF assms]
  have nq: "is_mat 6 6 (smult (- 1) (cntl_Q cntl))"
    using w by (simp add: is_mat_smult)
  have "concatenate2x2 (cntl_A_d cntl) (zero_m 6 6) (smult (- 1) (cntl_Q cntl)) (identity_m 6)
          (gsl_matrix_alloc 12 12)
        = block2x2 (cntl_A_d cntl) (zero_m 6 6) (smult (- 1) (cntl_Q cntl)) (identity_m 6)"
    using w nq by (intro concatenate2x2_blocks[of 6 6 _ 6 _ 6]) simp_all
  then show "pm_N (computePMatrix_first lu cntl) = N_of cntl"
    using w by (simp add: computePMatrix_first_def Let_def gsl_matrix_memcpy_def
        scale_smult[of 6 6] N_of_def)
  show "pm_R_inverse (computePMatrix_first lu cntl) = invert lu (cntl_R cntl)"
    and "pm_A_d_transpose (computePMatrix_first lu cntl) = transpose_m (cntl_A_d cntl)"
    by (simp_all add: computePMatrix_first_def Let_def gsl_matrix_transpose_memcpy_def)
qed

lemma is_mat_L_of:
  assumes "wf_Controller cntl"
  shows "is_mat 12 12 (L_of lu cntl)"
proof -
  note w = wf_ControllerD[OF assms]
  have G: "is_mat 6 6 (mmul (mmul (cntl_B_d cntl) (invert lu (cntl_R cntl))) (transpose_m (cntl_B_d cntl)))"
    using w by (intro is_mat_mmul'[of _ 3] is_mat_invert is_mat_transpose_m) simp_all
  have "is_mat (6 + 6) (6 + 6) (L_of lu cntl)"
    unfolding L_of_def using w G by (intro is_mat_block2x2 is_mat_transpose_m) simp_all
  then show ?thesis by simp
qed

lemma computePMatrix_H_eq:
  assumes "wf_Controller cntl"
    and "pm_N s = N_of cntl" and "pm_R_inverse s = invert lu (cntl_R cntl)"
    and "pm_A_d_transpose s = transpose_m (cntl_A_d cntl)"
  shows "computePMatrix_H lu s cntl = H_of lu cntl"
proof -
  note w = wf_ControllerD[OF assms(1)]
  have Ri: "is_mat 3 3 (invert lu (cntl_R cntl))"
    using w by (simp add: is_mat_invert)
  have Bt: "is_mat 3 6 (transpose_m (cntl_B_d cntl))"
    using w by (simp add: is_mat_transpose_m)
  have At: "is_mat 6 6 (transpose_m (cntl_A_d cntl))"
    using w by (simp add: is_mat_transpose_m)
  have G: "mmul (cntl_B_d cntl) (mmul (invert lu (cntl_R cntl)) (transpose_m (cntl_B_d cntl)))
      = mmul (mmul (cntl_B_d cntl) (invert lu (cntl_R cntl))) (transpose_m (cntl_B_d cntl))"
    using w Ri Bt by (simp add: mmul_assoc[of 6 3 _ 3 _ 6])
  have Gm: "is_mat 6 6 (mmul (mmul (cntl_B_d cntl) (invert lu (cntl_R cntl))) (transpose_m (cntl_B_d cntl)))"
    using w Ri Bt by (intro is_mat_mmul'[of _ 3]) simp_all
  have L: "concatenate2x2 (identity_m 6)
             (mmul (mmul (cntl_B_d cntl) (invert lu (cntl_R cntl))) (transpose_m (cntl_B_d cntl)))
             (zero_m 6 6) (transpose_m (cntl_A_d cntl)) (gsl_matrix_alloc 12 12) = L_of lu cntl"
    unfolding L_of_def using Gm At by (intro concatenate2x2_blocks[of 6 6 _ 6 _ 6]) simp_all
  show ?thesis
    unfolding computePMatrix_H_def H_of_def
    by (simp add: Let_def dgemm_beta_0 smult_1 gsl_matrix_memcpy_def assms(2-4) w G L)
qed

lemma is_mat_H_of:
  assumes "wf_Controller cntl"
  shows "is_mat 12 12 (H_of lu cntl)"
  unfolding H_of_def
  using is_mat_N_of[OF assms] is_mat_L_of[OF assms]
  by (intro is_mat_mmul'[of _ 12] is_mat_invert is_mat_add is_mat_sub) simp_all

lemma computePMatrix_eq:
  assumes "wf_Controller cntl"
    and "pm_N s = N_of cntl" and "pm_R_inverse s = invert lu (cntl_R cntl)"
    and "pm_A_d_transpose s = transpose_m (cntl_A_d cntl)"
  shows "computePMatrix lu (Some s) cntl =
     (case runNewtonRaphsonProcess lu (H_of lu cntl) (gsl_matrix_alloc 12 12) of
        None \<Rightarrow> None
      | Some S \<Rightarrow> Some (Some s, cntl\<lparr>cntl_P := P_of lu (H_of lu cntl) S\<rparr>))"
proof -
  have D: "is_mat 12 12 (gsl_matrix_sub (H_of lu cntl) S)" for S
    using is_mat_H_of[OF assms(1)] by (simp add: is_mat_sub)
  show ?thesis
    unfolding computePMatrix_def
    by (simp add: Let_def computePMatrix_H_eq[OF assms] dgemm_beta_0 smult_1 P_of_def
        submatrix_top_left[OF D] submatrix_bottom_left[OF D] split: option.split)
qed

lemma computePMatrix_first_call:
  "computePMatrix lu None cntl = computePMatrix lu (Some (computePMatrix_first lu cntl)) cntl"
  by (simp add: computePMatrix_def)

lemma runNewton_scalar:
  assumes "is_mat 12 12 H" and "is_mat 12 12 S" and "mmul H H = scalar_m c"
    and "\<And>j. j \<le> k \<Longrightarrow> invert lu (scalar_m (newton_scalar c j)) = scalar_m (1 / newton_scalar c j)"
    and "\<bar>newton_scalar c (Suc k) - newton_scalar c k\<bar> \<le> 1 / 1000"
    and "\<And>j. j < k \<Longrightarrow> \<not> \<bar>newton_scalar c (Suc j) - newton_scalar c j\<bar> \<le> 1 / 1000"
  shows "runNewtonRaphsonProcess lu H S = Some (scalar_m (newton_scalar c (Suc k)))"
proof -
  have seq: "newton_seq lu H n = scalar_m (newton_scalar c n)" if "n \<le> Suc k" for n
    using that by (intro newton_seq_scalar assms(3,4)) simp
  have "runNewtonRaphsonProcess lu H S = Some (newton_seq lu H (Suc k))"
  proof (rule runNewton_stops[OF assms(1,2)])
    show "within_tolerance (newton_seq lu H (Suc k)) (newton_seq lu H k)"
      using assms(5) by (simp only: seq[of "Suc k"] seq[of k] within_tolerance_scalar)
    fix j assume "j < k"
    then show "\<not> within_tolerance (newton_seq lu H (Suc j)) (newton_seq lu H j)"
      using assms(6)[of j] seq[of "Suc j"] seq[of j]
      by (simp add: within_tolerance_scalar del: newton_seq.simps newton_scalar.simps)
  qed
  then show ?thesis
    by (simp only: seq[of "Suc k"])
qed

lemma newton_scalar_ninth:
  "newton_scalar (1 / 9) 0 = 1" "newton_scalar (1 / 9) 1 = 5 / 9"
  "newton_scalar (1 / 9) 2 = 17 / 45" "newton_scalar (1 / 9) 3 = 257 / 765"
  "newton_scalar (1 / 9) 4 = 65537 / 196605"
  "newton_scalar (1 / 9) 5 = 4294967297 / 12884901885"
  by (simp_all add: eval_nat_numeral)

lemma example_H:
  "H_of band_lu example_cntl =
     mat 12 12 (\<lambda>i j. if i = j then (if i < 3 \<or> 9 \<le> i then 1 / 3 else - (1 / 3))
                       else if i < 3 \<and> j = i + 6 then - (2 / 9) else 0)"
  by (simp add: H_of_def N_of_def L_of_def invert_def band_lu_def example_cntl_def eval_matrix)

lemma example_H_squared: "mmul (H_of band_lu example_cntl) (H_of band_lu example_cntl) = scalar_m (1 / 9)"
  unfolding example_H by (simp add: scalar_m_def eval_matrix)

lemma example_newton:
  "runNewtonRaphsonProcess band_lu (H_of band_lu example_cntl) (gsl_matrix_alloc 12 12)
     = Some (scalar_m (4294967297 / 12884901885))"
proof -
  have five: "j = 0 \<or> j = 1 \<or> j = 2 \<or> j = 3 \<or> j = 4" if "j \<le> 4" for j :: nat
    using that by arith
  have four: "j = 0 \<or> j = 1 \<or> j = 2 \<or> j = 3" if "j < 4" for j :: nat
    using that by arith
  have "runNewtonRaphsonProcess band_lu (H_of band_lu example_cntl) (gsl_matrix_alloc 12 12)
      = Some (scalar_m (newton_scalar (1 / 9) (Suc 4)))"
  proof (rule runNewton_scalar[OF is_mat_H_of[OF wf_example_cntl] is_mat_alloc example_H_squared])
    fix j :: nat assume "j \<le> 4"
    from five[OF this] have "newton_scalar (1 / 9) j \<noteq> 0"
      by (auto simp: newton_scalar_ninth)
    then show "invert band_lu (scalar_m (newton_scalar (1 / 9) j))
        = scalar_m (1 / newton_scalar (1 / 9) j)"
      by (rule invert_band_lu_scalar)
  next
    show "\<bar>newton_scalar (1 / 9) (Suc 4) - newton_scalar (1 / 9) 4\<bar> \<le> 1 / 1000"
      using newton_scalar_ninth(5,6) by (simp del: newton_scalar.simps)
  next
    fix j :: nat assume "j < 4"
    from four[OF this]
    show "\<not> \<bar>newton_scalar (1 / 9) (Suc j) - newton_scalar (1 / 9) j\<bar> \<le> 1 / 1000"
      using newton_scalar_ninth by (auto simp: eval_nat_numeral simp del: newton_scalar.simps)
  qed
  then show ?thesis
    using newton_scalar_ninth(6) by (simp del: newton_scalar.simps)
qed

lemma example_P:
  "P_of band_lu (H_of band_lu example_cntl) (scalar_m (4294967297 / 12884901885)) = zero_m 6 6"
  unfolding example_H
  by (simp add: P_of_def Let_def invert_def band_lu_def scalar_m_def eval_matrix)




subsection \<open>The field vector (0, 0, 0)\<close>

text \<open>
  Sums and products with a NaN operand are NaN; sums and products of finite numbers are
  the finite numbers of the real arithmetic.
\<close>

lemma double_add_NaN [simp]: "double_add x NaN = NaN"
  by (cases x) simp_all

lemma double_mult_NaN [simp]: "double_mult x NaN = NaN"
  by (cases x) simp_all

lemma double_sum_NaN: "NaN \<in> set xs \<Longrightarrow> double_sum xs = NaN"
  by (induction xs) auto

lemma double_sum_Fin: "double_sum (map (\<lambda>k. Fin (f k)) xs) = Fin (\<Sum>k\<leftarrow>xs. f k)"
  by (induction xs) simp_all

lemma size1_finite_m [simp]: "size1 (finite_m a) = size1 a"
  by (simp add: finite_m_def size1_def)

lemma size2_finite_m [simp]: "size2 (finite_m a) = size2 a"
  by (cases a) (simp_all add: finite_m_def size2_def)

lemma is_mat_finite_m: "is_mat n m a \<Longrightarrow> is_mat n m (finite_m a)"
  by (simp add: finite_m_def is_mat_def list_all_iff)

lemma finite_m_nth:
  "is_mat n m a \<Longrightarrow> i < n \<Longrightarrow> j < m \<Longrightarrow> finite_m a ! i ! j = Fin (a ! i ! j)"
  by (simp add: finite_m_def is_mat_def list_all_length)

lemma finite_m_mat: "finite_m (mat n m f) = mat n m (\<lambda>i j. Fin (f i j))"
  by (simp add: finite_m_def mat_def comp_def)

lemma finite_m_vstack: "finite_m (vstack a b) = vstack (finite_m a) (finite_m b)"
  by (simp add: finite_m_def vstack_def)

lemma dgemm_ieee_finite:
  assumes a: "is_mat n k a" and b: "is_mat k m b" and n: "0 < n" and k: "0 < k"
  shows "gsl_blas_dgemm_ieee CblasNoTrans CblasNoTrans (Fin al) (finite_m a) (finite_m b) (Fin 0) c
         = finite_m (smult al (mmul a b))"
proof -
  have s: "size1 a = n" "size2 a = k" "size2 b = m"
    using a b n k by (simp_all add: is_mat_size1 is_mat_size2)
  have e: "map (\<lambda>q. double_mult (finite_m a ! i ! q) (finite_m b ! q ! j)) [0..<k]
      = map (\<lambda>q. Fin (a ! i ! q * b ! q ! j)) [0..<k]" if "i < n" "j < m" for i j
    using that by (simp add: finite_m_nth[OF a] finite_m_nth[OF b])
  have "mat n m (\<lambda>i j. double_mult (Fin al)
          (double_sum (map (\<lambda>q. double_mult (finite_m a ! i ! q) (finite_m b ! q ! j)) [0..<k])))
      = mat n m (\<lambda>i j. Fin (al * (\<Sum>q\<leftarrow>[0..<k]. a ! i ! q * b ! q ! j)))"
    by (rule mat_cong) (simp add: e double_sum_Fin)
  then show ?thesis
    by (simp add: gsl_blas_dgemm_ieee_def Let_def s mmul_def smult_mat finite_m_mat)
qed

lemma dgemm_ieee_NaN:
  assumes a: "is_mat n k a" and n: "0 < n" and m: "size2 b = m" and q: "q < k"
    and nan: "\<And>j. j < m \<Longrightarrow> b ! q ! j = NaN"
  shows "gsl_blas_dgemm_ieee CblasNoTrans CblasNoTrans alpha a b (Fin 0) c
         = mat n m (\<lambda>i j. NaN)"
proof -
  have s: "size1 a = n" "size2 a = k"
    using a n q by (simp_all add: is_mat_size1 is_mat_size2)
  have "double_sum (map (\<lambda>p. double_mult (a ! i ! p) (b ! p ! j)) [0..<k]) = NaN"
    if "j < m" for i j
  proof (rule double_sum_NaN)
    have "double_mult (a ! i ! q) (b ! q ! j) = NaN"
      using nan[OF that] by simp
    then show "NaN \<in> set (map (\<lambda>p. double_mult (a ! i ! p) (b ! p ! j)) [0..<k])"
      using q by (auto simp: image_iff intro!: bexI[of _ q])
  qed
  then have "mat n m (\<lambda>i j. double_mult alpha
        (double_sum (map (\<lambda>p. double_mult (a ! i ! p) (b ! p ! j)) [0..<k])))
      = mat n m (\<lambda>i j. NaN)"
    by (intro mat_cong) simp
  then show ?thesis
    by (simp add: gsl_blas_dgemm_ieee_def Let_def s m)
qed

text \<open>
  The field vector \<open>(0, 0, 0)\<close>: \<^verbatim>\<open>bT_b\<close> is zero, \<^verbatim>\<open>1/bT_b\<close> is the positive infinity, and
  every entry of \<^verbatim>\<open>quotient\<close>, the infinity times a sum of zeros, is NaN.
\<close>

lemma quotient_zero_field:
  "gsl_blas_dgemm_ieee CblasNoTrans CblasNoTrans
     (double_div (Fin 1) (gsl_blas_ddot_ieee [Fin 0, Fin 0, Fin 0] [Fin 0, Fin 0, Fin 0]))
     [[Fin 0, Fin 0, Fin 0], [Fin 0, Fin 0, Fin 0], [Fin 0, Fin 0, Fin 0]]
     [[Fin 0, Fin 0, Fin 0], [Fin 0, Fin 0, Fin 0], [Fin 0, Fin 0, Fin 0]] (Fin 0) c
   = mat 3 3 (\<lambda>i j. NaN)"
  by (simp add: gsl_blas_dgemm_ieee_def gsl_blas_ddot_ieee_def Let_def size1_def size2_def
      mat_def upt_3)

lemma computeBMatrices_ieee_zero:
  assumes b: "cntl_b cntl = [0, 0, 0]" and Z: "cntl_Zero_3 cntl = zero_m 3 3"
    and Bc: "is_mat 6 3 (cntl_B_c cntl)"
    and J: "is_mat 3 3 (bm_J_inv s)" and T: "is_mat 6 6 (bm_transform s)"
  shows "computeBMatrices_ieee lu (Some s) cntl =
     ([[Fin 0, Fin 0, Fin 0], [Fin 0, Fin 0, Fin 0], [Fin 0, Fin 0, Fin 0],
       [NaN, NaN, NaN], [NaN, NaN, NaN], [NaN, NaN, NaN]],
      [[NaN, NaN, NaN], [NaN, NaN, NaN], [NaN, NaN, NaN],
       [NaN, NaN, NaN], [NaN, NaN, NaN], [NaN, NaN, NaN]])"
proof -
  let ?N = "mat 3 3 (\<lambda>i j. NaN)"
  have Jq: "gsl_blas_dgemm_ieee CblasNoTrans CblasNoTrans (Fin 1) (finite_m (bm_J_inv s)) ?N
      (Fin 0) c = ?N" for c
    by (rule dgemm_ieee_NaN[of 3 3 _ _ 3 0]) (simp_all add: is_mat_finite_m[OF J])
  have cv: "concatenate_vertical (finite_m (zero_m 3 3)) ?N (finite_m (cntl_B_c cntl))
      = vstack (finite_m (zero_m 3 3)) ?N"
    by (rule concatenate_vertical_blocks[of 3 3 _ 3])
      (simp_all add: is_mat_finite_m Bc)
  have v: "vstack (finite_m (zero_m 3 3)) ?N =
      [[Fin 0, Fin 0, Fin 0], [Fin 0, Fin 0, Fin 0], [Fin 0, Fin 0, Fin 0],
       [NaN, NaN, NaN], [NaN, NaN, NaN], [NaN, NaN, NaN]]"
    by (simp add: vstack_def finite_m_def zero_m_def mat_def upt_3 numeral_3_eq_3)
  have Bd: "gsl_blas_dgemm_ieee CblasNoTrans CblasNoTrans (Fin 1) (finite_m (bm_transform s))
      [[Fin 0, Fin 0, Fin 0], [Fin 0, Fin 0, Fin 0], [Fin 0, Fin 0, Fin 0],
       [NaN, NaN, NaN], [NaN, NaN, NaN], [NaN, NaN, NaN]] (Fin 0) c = mat 6 3 (\<lambda>i j. NaN)" for c
    by (rule dgemm_ieee_NaN[of 6 6 _ _ 3 3])
      (auto simp: is_mat_finite_m[OF T] size2_def less_Suc_eq numeral_3_eq_3)
  have m: "mat 6 3 (\<lambda>i j. NaN) = [[NaN, NaN, NaN], [NaN, NaN, NaN], [NaN, NaN, NaN],
       [NaN, NaN, NaN], [NaN, NaN, NaN], [NaN, NaN, NaN]]"
    by (simp add: mat_def upt_3 upt_6)
  show ?thesis
    unfolding computeBMatrices_ieee_def Let_def
    by (simp add: b Z gsl_vector_get_def quotient_zero_field Jq cv v Bd m)
qed


lemma computeBMatrices_ieee_None:
  "computeBMatrices_ieee lu None cntl
   = computeBMatrices_ieee lu (Some (computeBMatrices_first lu cntl)) cntl"
  by (simp add: computeBMatrices_ieee_def)

lemma is_mat_first:
  assumes "is_mat 3 3 (cntl_J cntl)" and "is_mat 6 6 (cntl_A_c cntl)"
  shows "is_mat 3 3 (bm_J_inv (computeBMatrices_first lu cntl))"
    and "is_mat 6 6 (bm_transform (computeBMatrices_first lu cntl))"
proof -
  show "is_mat 3 3 (bm_J_inv (computeBMatrices_first lu cntl))"
    using assms(1) by (simp add: computeBMatrices_first_transform is_mat_invert)
  have "is_mat 6 6 (mmul (invert lu (cntl_A_c cntl)) (gsl_matrix_sub (identity_m 6) (cntl_A_d cntl)))"
    using assms(2) by (intro is_mat_mmul'[of _ 6] is_mat_invert is_mat_sub) simp_all
  then show "is_mat 6 6 (bm_transform (computeBMatrices_first lu cntl))"
    by (simp add: computeBMatrices_first_transform transform_of_def is_mat_smult)
qed

text \<open>
  Where \<open>b \<cdot> b \<noteq> 0\<close> the two embeddings of \<^verbatim>\<open>computeBMatrices\<close> agree: the second one
  returns the finite matrices that the first one stores in \<open>B_c\<close> and \<open>B_d\<close>.
\<close>

lemma computeBMatrices_ieee_finite:
  assumes wf: "wf_Controller cntl" and b: "cntl_b cntl = [b1, b2, b3]"
    and nz: "b1 * b1 + b2 * b2 + b3 * b3 \<noteq> 0"
    and J: "is_mat 3 3 (bm_J_inv s)" and T: "is_mat 6 6 (bm_transform s)"
  shows "computeBMatrices_ieee lu (Some s) cntl =
     (finite_m (cntl_B_c (snd (computeBMatrices lu (Some s) cntl))),
      finite_m (cntl_B_d (snd (computeBMatrices lu (Some s) cntl))))"
proof -
  note w = wf_ControllerD[OF wf]
  define d where "d = (\<Sum>x\<leftarrow>[b1, b2, b3]. x * x)"
  have d0: "d \<noteq> 0"
    using nz by (simp add: d_def add.assoc)
  let ?bm = "bmat_of [b1, b2, b3]"
  let ?q = "smult (1 / d) (mmul ?bm ?bm)"
  let ?Jq = "mmul (bm_J_inv s) ?q"
  have bm: "[[Fin 0, Fin (- b3), Fin b2], [Fin b3, Fin 0, Fin (- b1)], [Fin (- b2), Fin b1, Fin 0]]
      = finite_m ?bm"
    by (simp add: finite_m_def bmat_of_def gsl_vector_get_def)
  have dd: "gsl_blas_ddot_ieee [Fin b1, Fin b2, Fin b3] [Fin b1, Fin b2, Fin b3] = Fin d"
    by (simp add: gsl_blas_ddot_ieee_def upt_3 d_def)
  have q: "gsl_blas_dgemm_ieee CblasNoTrans CblasNoTrans (Fin (1 / d)) (finite_m ?bm)
      (finite_m ?bm) (Fin 0) c = finite_m ?q" for c
    by (rule dgemm_ieee_finite[of 3 3 _ 3]) (simp_all add: is_mat_bmat_of)
  have q3: "is_mat 3 3 ?q"
    by (intro is_mat_smult is_mat_mmul'[of _ 3]) (simp_all add: is_mat_bmat_of)
  have Jq: "gsl_blas_dgemm_ieee CblasNoTrans CblasNoTrans (Fin 1) (finite_m (bm_J_inv s))
      (finite_m ?q) (Fin 0) c = finite_m ?Jq" for c
    using dgemm_ieee_finite[OF J q3, of 1 c] by (simp add: smult_1)
  have Jq3: "is_mat 3 3 ?Jq"
    using J q3 by (intro is_mat_mmul'[of _ 3]) simp_all
  have cv: "concatenate_vertical (finite_m (zero_m 3 3)) (finite_m ?Jq) (finite_m (cntl_B_c cntl))
      = finite_m (vstack (zero_m 3 3) ?Jq)"
    unfolding finite_m_vstack
    by (rule concatenate_vertical_blocks[of 3 3 _ 3]) (simp_all add: is_mat_finite_m Jq3 w(7))
  have v63: "is_mat 6 3 (vstack (zero_m 3 3) ?Jq)"
    using is_mat_vstack[OF is_mat_zero_m[of 3 3] Jq3] by simp
  have Bd: "gsl_blas_dgemm_ieee CblasNoTrans CblasNoTrans (Fin 1) (finite_m (bm_transform s))
      (finite_m (vstack (zero_m 3 3) ?Jq)) (Fin 0) c
      = finite_m (mmul (bm_transform s) (vstack (zero_m 3 3) ?Jq))" for c
    using dgemm_ieee_finite[OF T v63, of 1 c] by (simp add: smult_1)
  have l: "computeBMatrices_ieee lu (Some s) cntl =
      (finite_m (vstack (zero_m 3 3) ?Jq),
       finite_m (mmul (bm_transform s) (vstack (zero_m 3 3) ?Jq)))"
    unfolding computeBMatrices_ieee_def Let_def
    by (simp add: b w(13) gsl_vector_get_def bm dd d0 q Jq cv Bd)
  show ?thesis
    unfolding l computeBMatrices_eq[OF wf b J] B_c_of_def d_def[symmetric]
    by simp
qed

lemma computeBMatrices_ieee_finite_first:
  assumes wf: "wf_Controller cntl" and b: "cntl_b cntl = [b1, b2, b3]"
    and nz: "b1 * b1 + b2 * b2 + b3 * b3 \<noteq> 0"
  shows "computeBMatrices_ieee lu None cntl =
     (finite_m (cntl_B_c (snd (computeBMatrices lu None cntl))),
      finite_m (cntl_B_d (snd (computeBMatrices lu None cntl))))"
proof -
  note w = wf_ControllerD[OF wf]
  have "snd (computeBMatrices lu None cntl)
      = snd (computeBMatrices lu (Some (computeBMatrices_first lu cntl)) cntl)"
    by (simp add: computeBMatrices_def)
  then show ?thesis
    unfolding computeBMatrices_ieee_None
    using computeBMatrices_ieee_finite[OF wf b nz is_mat_first[OF w(5) w(1)]]
    by simp
qed

text \<open>
  C1 fails on the code. The controller is the one \<^verbatim>\<open>initializeController\<close> returns, the
  sensors report the magnetic field \<open>(0, 0, 0)\<close>, and \<^verbatim>\<open>computeBMatrices\<close> is called for the
  first time, whatever the exponential and the inversions of the library deliver. The
  input is not rejected: the function divides 1 by \<open>b \<cdot> b = 0\<close> and returns with NaN in
  the three bottom rows of \<open>B_c\<close> and in all of \<open>B_d\<close>.
\<close>

theorem computeBMatrices_stores_NaN:
  "\<forall>expm lu.
     computeBMatrices_ieee lu None
       (updateSensors \<lparr>getAngularPosition = (0, 0, 0), getAngularVelocity = (0, 0, 0),
                       getMagneticField = (0, 0, 0)\<rparr> (initializeController expm)) =
       ([[Fin 0, Fin 0, Fin 0], [Fin 0, Fin 0, Fin 0], [Fin 0, Fin 0, Fin 0],
         [NaN, NaN, NaN], [NaN, NaN, NaN], [NaN, NaN, NaN]],
        [[NaN, NaN, NaN], [NaN, NaN, NaN], [NaN, NaN, NaN],
         [NaN, NaN, NaN], [NaN, NaN, NaN], [NaN, NaN, NaN]])"
proof (intro allI)
  fix expm :: exp_kernel and lu :: lu_kernel
  let ?c = "updateSensors \<lparr>getAngularPosition = (0, 0, 0), getAngularVelocity = (0, 0, 0),
                       getMagneticField = (0, 0, 0)\<rparr> (initializeController expm)"
  have b: "cntl_b ?c = [0, 0, 0]"
    by (simp add: updateSensors_def)
  have Z: "cntl_Zero_3 ?c = zero_m 3 3"
    by (simp add: updateSensors_def initializeController_def Let_def zero_alloc)
  have Bc: "is_mat 6 3 (cntl_B_c ?c)"
    by (simp add: updateSensors_def initializeController_def Let_def)
  have J: "is_mat 3 3 (cntl_J ?c)"
    by (simp add: updateSensors_def initializeController_def Let_def is_mat_def)
  have A: "is_mat 6 6 (cntl_A_c ?c)"
    by (simp add: updateSensors_def initializeController_def Let_def is_mat_def)
  show "computeBMatrices_ieee lu None ?c =
       ([[Fin 0, Fin 0, Fin 0], [Fin 0, Fin 0, Fin 0], [Fin 0, Fin 0, Fin 0],
         [NaN, NaN, NaN], [NaN, NaN, NaN], [NaN, NaN, NaN]],
        [[NaN, NaN, NaN], [NaN, NaN, NaN], [NaN, NaN, NaN],
         [NaN, NaN, NaN], [NaN, NaN, NaN], [NaN, NaN, NaN]])"
    unfolding computeBMatrices_ieee_None
    by (rule computeBMatrices_ieee_zero[OF b Z Bc is_mat_first[OF J A]])
qed

text \<open>
  C1, amended. For the field vector \<open>(0, 0, 0)\<close> \<^verbatim>\<open>computeBMatrices\<close> does not reject its
  input. On a controller of the allocated sizes it divides 1 by \<open>b \<cdot> b = 0\<close> and returns
  with the zero block on top of a \<open>3 \<times> 3\<close> block of NaN in \<open>B_c\<close> and with NaN in every
  entry of \<open>B_d\<close>, on its first call and on a later call, which uses the static matrices
  of a first call on a controller \<open>cntl0\<close>.
\<close>

theorem computeBMatrices_zero_field:
  assumes "wf_Controller cntl" and "cntl_b cntl = [0, 0, 0]" and "wf_Controller cntl0"
  shows "computeBMatrices_ieee lu None cntl =
           ([[Fin 0, Fin 0, Fin 0], [Fin 0, Fin 0, Fin 0], [Fin 0, Fin 0, Fin 0],
             [NaN, NaN, NaN], [NaN, NaN, NaN], [NaN, NaN, NaN]],
            [[NaN, NaN, NaN], [NaN, NaN, NaN], [NaN, NaN, NaN],
             [NaN, NaN, NaN], [NaN, NaN, NaN], [NaN, NaN, NaN]])
       \<and> computeBMatrices_ieee lu (Some (computeBMatrices_first lu cntl0)) cntl =
           ([[Fin 0, Fin 0, Fin 0], [Fin 0, Fin 0, Fin 0], [Fin 0, Fin 0, Fin 0],
             [NaN, NaN, NaN], [NaN, NaN, NaN], [NaN, NaN, NaN]],
            [[NaN, NaN, NaN], [NaN, NaN, NaN], [NaN, NaN, NaN],
             [NaN, NaN, NaN], [NaN, NaN, NaN], [NaN, NaN, NaN]])"
proof -
  note w = wf_ControllerD[OF assms(1)]
  note w0 = wf_ControllerD[OF assms(3)]
  show ?thesis
    unfolding computeBMatrices_ieee_None
    using computeBMatrices_ieee_zero[OF assms(2) w(13) w(7) is_mat_first[OF w(5) w(1)]]
      computeBMatrices_ieee_zero[OF assms(2) w(13) w(7) is_mat_first[OF w0(5) w0(1)]]
    by simp
qed

theorem computeBMatrices_zero_field_witness:
  "wf_Controller (example_cntl\<lparr>cntl_b := [0, 0, 0]\<rparr>)
   \<and> cntl_b (example_cntl\<lparr>cntl_b := [0, 0, 0]\<rparr>) = [0, 0, 0]
   \<and> wf_Controller example_cntl
   \<and> computeBMatrices_ieee band_lu None (example_cntl\<lparr>cntl_b := [0, 0, 0]\<rparr>) =
           ([[Fin 0, Fin 0, Fin 0], [Fin 0, Fin 0, Fin 0], [Fin 0, Fin 0, Fin 0],
             [NaN, NaN, NaN], [NaN, NaN, NaN], [NaN, NaN, NaN]],
            [[NaN, NaN, NaN], [NaN, NaN, NaN], [NaN, NaN, NaN],
             [NaN, NaN, NaN], [NaN, NaN, NaN], [NaN, NaN, NaN]])
   \<and> computeBMatrices_ieee band_lu (Some (computeBMatrices_first band_lu example_cntl))
         (example_cntl\<lparr>cntl_b := [0, 0, 0]\<rparr>) =
           ([[Fin 0, Fin 0, Fin 0], [Fin 0, Fin 0, Fin 0], [Fin 0, Fin 0, Fin 0],
             [NaN, NaN, NaN], [NaN, NaN, NaN], [NaN, NaN, NaN]],
            [[NaN, NaN, NaN], [NaN, NaN, NaN], [NaN, NaN, NaN],
             [NaN, NaN, NaN], [NaN, NaN, NaN], [NaN, NaN, NaN]])"
proof -
  have wf': "wf_Controller (example_cntl\<lparr>cntl_b := [0, 0, 0]\<rparr>)"
    using wf_example_cntl by (simp add: wf_Controller_def)
  have b': "cntl_b (example_cntl\<lparr>cntl_b := [0, 0, 0]\<rparr>) = [0, 0, 0]"
    by simp
  show ?thesis
    using computeBMatrices_zero_field[OF wf' b' wf_example_cntl, of band_lu] wf' wf_example_cntl
    by simp
qed

end
